theory Spec2Isabelle
  imports Main
begin

section \<open>JavaScript values\<close>

text \<open>
  The bridge handles JSON-shaped records: the raw events drained from the browser page,
  the envelopes built around them and the normalized events sent to the broker. They are
  modelled by one datatype of JavaScript values. Numbers are integers (ack levels, epoch
  seconds and milliseconds); fractional numbers are outside the model. An object is the
  list of its own properties in insertion order. \<open>JHost n\<close> is the member \<open>n\<close> that every
  plain object inherits from \<open>Object.prototype\<close> (a function, or the prototype itself for
  \<open>__proto__\<close>): JSON data never holds one, but a computed lookup \<open>obj[key]\<close> can return it.
\<close>

datatype jsval =
    JUndef
  | JNull
  | JBool bool
  | JNum int
  | JStr string
  | JArr "jsval list"
  | JObj "(string \<times> jsval) list"
  | JHost string

text \<open>A thrown exception is the \<open>Inl\<close> of a result.\<close>

datatype error = TypeError | RangeError | Error string

definition bindE :: "error + 'a \<Rightarrow> ('a \<Rightarrow> error + 'b) \<Rightarrow> error + 'b" where
  "bindE r f = (case r of Inl e \<Rightarrow> Inl e | Inr v \<Rightarrow> f v)"

fun nullish :: "jsval \<Rightarrow> bool" where
  "nullish JUndef = True"
| "nullish JNull = True"
| "nullish _ = False"

text \<open>\<open>ToBoolean\<close>: what \<open>!v\<close>, \<open>v || w\<close> and \<open>v ? a : b\<close> test.\<close>

fun truthy :: "jsval \<Rightarrow> bool" where
  "truthy JUndef = False"
| "truthy JNull = False"
| "truthy (JBool b) = b"
| "truthy (JNum n) = (n \<noteq> 0)"
| "truthy (JStr s) = (s \<noteq> [])"
| "truthy (JArr _) = True"
| "truthy (JObj _) = True"
| "truthy (JHost _) = True"

text \<open>
  \<open>jsget v k\<close> reads the property \<open>k\<close> of a value that is not null or undefined. The
  property names the source reads by name are no members of any prototype, so a
  string, number, boolean or array has none of them.
\<close>

fun jsget :: "jsval \<Rightarrow> string \<Rightarrow> jsval" where
  "jsget (JObj kvs) k = (case map_of kvs k of Some v \<Rightarrow> v | None \<Rightarrow> JUndef)"
| "jsget _ k = JUndef"

text \<open>
  A member chain \<open>v.a?.b?.c\<close>: \<open>Dot\<close> is \<open>.\<close>, which throws a TypeError on null and
  undefined, \<open>Opt\<close> is \<open>?.\<close>, which makes the rest of the chain \<open>undefined\<close> there.
\<close>

datatype access = Dot string | Opt string

fun chain :: "jsval \<Rightarrow> access list \<Rightarrow> error + jsval" where
  "chain v [] = Inr v"
| "chain v (Dot k # r) = (if nullish v then Inl TypeError else chain (jsget v k) r)"
| "chain v (Opt k # r) = (if nullish v then Inr JUndef else chain (jsget v k) r)"

text \<open>\<open>a || b\<close>: \<open>b\<close> is evaluated only when \<open>a\<close> is falsy.\<close>

definition orE :: "error + jsval \<Rightarrow> error + jsval \<Rightarrow> error + jsval" where
  "orE a b = bindE a (\<lambda>v. if truthy v then Inr v else b)"

text \<open>Strict equality \<open>===\<close> with a string literal.\<close>

definition is_str :: "jsval \<Rightarrow> string \<Rightarrow> bool" where
  "is_str v s = (v = JStr s)"

text \<open>
  Strict equality of two values, as \<open>===\<close> and \<open>Array.prototype.includes\<close> compare them
  (there is no NaN among integers): primitives by value, and an object or array of the
  event never equals one of the configuration, which is another reference.
\<close>

fun strict_eq :: "jsval \<Rightarrow> jsval \<Rightarrow> bool" where
  "strict_eq JUndef JUndef = True"
| "strict_eq JNull JNull = True"
| "strict_eq (JBool a) (JBool b) = (a = b)"
| "strict_eq (JNum a) (JNum b) = (a = b)"
| "strict_eq (JStr a) (JStr b) = (a = b)"
| "strict_eq _ _ = False"

subsection \<open>Strings\<close>

fun starts_with :: "string \<Rightarrow> string \<Rightarrow> bool" where
  "starts_with [] s = True"
| "starts_with (p # ps) [] = False"
| "starts_with (p # ps) (c # cs) = (p = c \<and> starts_with ps cs)"

text \<open>\<open>hay.includes(needle)\<close> on strings.\<close>

fun str_includes :: "string \<Rightarrow> string \<Rightarrow> bool" where
  "str_includes n [] = (n = [])"
| "str_includes n (c # cs) = (starts_with n (c # cs) \<or> str_includes n cs)"

definition ends_with :: "string \<Rightarrow> string \<Rightarrow> bool" where
  "ends_with suf s = starts_with (rev suf) (rev s)"

definition digit_char :: "nat \<Rightarrow> char" where
  "digit_char d =
     (if d = 0 then CHR ''0'' else if d = 1 then CHR ''1'' else if d = 2 then CHR ''2''
      else if d = 3 then CHR ''3'' else if d = 4 then CHR ''4'' else if d = 5 then CHR ''5''
      else if d = 6 then CHR ''6'' else if d = 7 then CHR ''7'' else if d = 8 then CHR ''8''
      else CHR ''9'')"

fun nat_to_string :: "nat \<Rightarrow> string" where
  "nat_to_string n =
     (if n < 10 then [digit_char n] else nat_to_string (n div 10) @ [digit_char (n mod 10)])"

declare nat_to_string.simps [simp del]

text \<open>The decimal rendering of an integer (JavaScript's, below \<open>10^21\<close>).\<close>

definition num_to_string :: "int \<Rightarrow> string" where
  "num_to_string n = (if n < 0 then CHR ''-'' # nat_to_string (nat (- n)) else nat_to_string (nat n))"

text \<open>
  \<open>ToString\<close>, as a template literal, a computed property key and a \<open>.toString()\<close> call
  apply it to a value that is not null or undefined. An array joins its elements with
  commas, null and undefined elements as the empty string. A plain object is
  \<open>[object Object]\<close>, unless it has an own property \<open>toString\<close>: in JSON data that
  property is no function, and the conversion throws a TypeError.
\<close>

fun js_toString :: "jsval \<Rightarrow> error + string"
  and js_join :: "jsval list \<Rightarrow> error + string" where
  "js_toString JUndef = Inr ''undefined''"
| "js_toString JNull = Inr ''null''"
| "js_toString (JBool b) = Inr (if b then ''true'' else ''false'')"
| "js_toString (JNum n) = Inr (num_to_string n)"
| "js_toString (JStr s) = Inr s"
| "js_toString (JArr xs) = js_join xs"
| "js_toString (JObj kvs) =
     (if ''toString'' \<in> set (map fst kvs) then Inl TypeError else Inr ''[object Object]'')"
| "js_toString (JHost n) = Inr (''function '' @ n @ ''() { [native code] }'')"
| "js_join [] = Inr []"
| "js_join (x # xs) =
     bindE (if nullish x then Inr [] else js_toString x) (\<lambda>s.
       if xs = [] then Inr s else bindE (js_join xs) (\<lambda>r. Inr (s @ '','' @ r)))"

text \<open>The names every plain object inherits from \<open>Object.prototype\<close>.\<close>

definition object_prototype_names :: "string list" where
  "object_prototype_names =
     [''constructor'', ''__defineGetter__'', ''__defineSetter__'', ''hasOwnProperty'',
      ''__lookupGetter__'', ''__lookupSetter__'', ''isPrototypeOf'', ''propertyIsEnumerable'',
      ''toString'', ''valueOf'', ''__proto__'', ''toLocaleString'']"

text \<open>
  A computed lookup \<open>obj[key]\<close> in a plain object \<open>obj\<close> of the program: the key is
  converted to a string, own properties come first, then the inherited ones.
\<close>

definition lookup_key :: "(string \<times> jsval) list \<Rightarrow> jsval \<Rightarrow> error + jsval" where
  "lookup_key kvs key =
     bindE (js_toString key) (\<lambda>k.
       case map_of kvs k of
         Some v \<Rightarrow> Inr v
       | None \<Rightarrow> Inr (if k \<in> set object_prototype_names then JHost k else JUndef))"

section \<open>Deduplication filter (store.js, \<open>shouldProcessMessage\<close>)\<close>

text \<open>
  \<open>processedMessages\<close> is a \<open>Map\<close> from key to the time of its insertion, in insertion
  order. \<open>set\<close> is only called for a key that \<open>has\<close> has just denied, so it appends.
\<close>

type_synonym cache = "(string \<times> int) list"

definition cache_has :: "cache \<Rightarrow> string \<Rightarrow> bool" where
  "cache_has c k = (k \<in> set (map fst c))"

definition cache_set :: "cache \<Rightarrow> string \<Rightarrow> int \<Rightarrow> cache" where
  "cache_set c k t = (if cache_has c k then map (\<lambda>(k', t'). if k' = k then (k', t) else (k', t')) c
                      else c @ [(k, t)])"

text \<open>The sweep: every entry whose timestamp is before the horizon is deleted.\<close>

definition sweep :: "int \<Rightarrow> cache \<Rightarrow> cache" where
  "sweep horizon c = filter (\<lambda>(k, t). \<not> t < horizon) c"

text \<open>
  The key \<open>`${messageId}_${eventType}_${msg.ack || 0}`\<close>.
\<close>

definition dedup_key :: "jsval \<Rightarrow> string \<Rightarrow> jsval \<Rightarrow> error + string" where
  "dedup_key messageId eventType ack =
     bindE (js_toString messageId) (\<lambda>m.
     bindE (js_toString (if truthy ack then ack else JNum 0)) (\<lambda>a.
       Inr (m @ ''_'' @ eventType @ ''_'' @ a)))"

text \<open>
  \<open>shouldProcessMessage(msg, eventType)\<close>. \<open>now\<close> and \<open>now'\<close> are the two readings of
  \<open>Date.now()\<close>, at the insertion and at the sweep. The result is the returned boolean
  and the cache it leaves.
\<close>

definition shouldProcessMessage ::
  "jsval \<Rightarrow> string \<Rightarrow> int \<Rightarrow> int \<Rightarrow> cache \<Rightarrow> error + (bool \<times> cache)" where
  "shouldProcessMessage msg eventType now now' c =
     (if \<not> truthy msg \<or> \<not> truthy (jsget msg ''id'')
         \<or> \<not> truthy (jsget (jsget msg ''id'') ''_serialized'')
      then Inr (False, c)
      else
        bindE (dedup_key (jsget (jsget msg ''id'') ''_serialized'') eventType (jsget msg ''ack''))
          (\<lambda>key.
            if cache_has c key then Inr (False, c)
            else
              let c1 = cache_set c key now in
              if length c1 > 1000
              then Inr (True, sweep (now' - 5 * 60 * 1000) c1)
              else Inr (True, c1)))"

section \<open>EventTransformers\<close>

text \<open>
  The constructor reads \<open>config/eventTypes.json\<close> and falls back, section by section, to
  the four \<open>_getDefault...\<close> tables. The file is not part of the sources, so the loaded
  tables are a parameter: \<open>eventTypes\<close> and \<open>groupActions\<close> are plain objects,
  \<open>messageTypes\<close> an array, and an ignore rule has a type and, optionally, an array of
  subtypes.
\<close>

record ignore_rule =
  rule_type :: jsval
  rule_subtypes :: "jsval list option"

record config =
  eventTypes :: "(string \<times> jsval) list"
  messageTypes :: "jsval list"
  ignoredTypes :: "ignore_rule list"
  groupActions :: "(string \<times> jsval) list"

definition getDefaultEventTypes :: "(string \<times> jsval) list" where
  "getDefaultEventTypes =
     [(''STATUS_CREATED'', JStr ''status_created''),
      (''STATUS_RECEIVED'', JStr ''status_received''),
      (''STATUS_READ'', JStr ''status_read''),
      (''MESSAGE_SENT'', JStr ''message_sent''),
      (''MESSAGE_DELIVERED'', JStr ''message_delivered''),
      (''MESSAGE_READ'', JStr ''message_read''),
      (''MESSAGE_PLAYED'', JStr ''message_played''),
      (''MESSAGE_CREATED'', JStr ''message_created''),
      (''MESSAGE_REVOKED'', JStr ''message_revoked''),
      (''DISAPPEARING_MODE_CHANGED'', JStr ''disappearing_mode_changed'')]"

definition getDefaultMessageTypes :: "jsval list" where
  "getDefaultMessageTypes =
     map JStr [''chat'', ''image'', ''video'', ''audio'', ''document'', ''sticker'', ''ptt'',
               ''ptv'', ''album'', ''gp2'', ''revoked'', ''notification_template'']"

definition getDefaultIgnoredTypes :: "ignore_rule list" where
  "getDefaultIgnoredTypes =
     [\<lparr>rule_type = JStr ''e2e_notification'', rule_subtypes = Some [JStr ''encrypt'']\<rparr>,
      \<lparr>rule_type = JStr ''ciphertext'', rule_subtypes = None\<rparr>]"

definition getDefaultGroupActions :: "(string \<times> jsval) list" where
  "getDefaultGroupActions =
     [(''add'', JStr ''member_added''),
      (''remove'', JStr ''member_removed''),
      (''promote'', JStr ''member_promoted''),
      (''demote'', JStr ''member_demoted''),
      (''modify'', JStr ''group_modified''),
      (''create'', JStr ''group_created''),
      (''subject'', JStr ''name_changed''),
      (''description'', JStr ''description_changed''),
      (''picture'', JStr ''picture_changed'')]"

definition default_config :: config where
  "default_config =
     \<lparr>eventTypes = getDefaultEventTypes, messageTypes = getDefaultMessageTypes,
      ignoredTypes = getDefaultIgnoredTypes, groupActions = getDefaultGroupActions\<rparr>"

text \<open>\<open>this.eventTypes.NAME\<close>.\<close>

definition eventTypes_get :: "config \<Rightarrow> string \<Rightarrow> jsval" where
  "eventTypes_get cfg name = jsget (JObj (eventTypes cfg)) name"

text \<open>
  \<open>Date.prototype.toISOString\<close> is the host's. \<open>iso ms\<close> is the text of the instant
  \<open>ms\<close> milliseconds after the epoch, which exists within \<open>8.64e15\<close> milliseconds of it;
  \<open>iso_coerced v\<close> is \<open>new Date(v * 1000).toISOString()\<close> for a \<open>v\<close> that is not a number,
  whose conversion to a number is left to the host.
\<close>

record host =
  iso :: "int \<Rightarrow> string"
  iso_coerced :: "jsval \<Rightarrow> error + string"

definition date_iso :: "host \<Rightarrow> jsval \<Rightarrow> error + jsval" where
  "date_iso h ts =
     (case ts of
        JNum n \<Rightarrow>
          if \<bar>n * 1000\<bar> \<le> 8640000000000000 then Inr (JStr (iso h (n * 1000)))
          else Inl RangeError
      | _ \<Rightarrow> bindE (iso_coerced h ts) (\<lambda>s. Inr (JStr s)))"

text \<open>An object literal: the property values are evaluated in order.\<close>

fun objE :: "(string \<times> (error + jsval)) list \<Rightarrow> error + (string \<times> jsval) list" where
  "objE [] = Inr []"
| "objE ((k, r) # rest) = bindE r (\<lambda>v. bindE (objE rest) (\<lambda>kvs. Inr ((k, v) # kvs)))"

text \<open>The assignment \<open>obj.k = v\<close>.\<close>

definition obj_set :: "(string \<times> jsval) list \<Rightarrow> string \<Rightarrow> jsval \<Rightarrow> (string \<times> jsval) list" where
  "obj_set kvs k v =
     (if k \<in> set (map fst kvs) then map (\<lambda>(k', v'). if k' = k then (k', v) else (k', v')) kvs
      else kvs @ [(k, v)])"

text \<open>
  \<open>v?.includes(needle)\<close>: a string searches for the substring, an array for an equal
  element, and no other value has the method.
\<close>

definition opt_includes :: "jsval \<Rightarrow> string \<Rightarrow> error + jsval" where
  "opt_includes v needle =
     (case v of
        JUndef \<Rightarrow> Inr JUndef
      | JNull \<Rightarrow> Inr JUndef
      | JStr s \<Rightarrow> Inr (JBool (str_includes needle s))
      | JArr xs \<Rightarrow> Inr (JBool (list_ex (\<lambda>x. strict_eq x (JStr needle)) xs))
      | _ \<Rightarrow> Inl TypeError)"

text \<open>\<open>v?.toString()\<close>.\<close>

definition opt_toString :: "jsval \<Rightarrow> error + jsval" where
  "opt_toString v = (if nullish v then Inr JUndef else bindE (js_toString v) (\<lambda>s. Inr (JStr s)))"

definition isStatusEvent :: "jsval \<Rightarrow> error + bool" where
  "isStatusEvent event =
     bindE (chain event [Dot ''data'', Opt ''data'', Opt ''id'', Opt ''remote'', Opt ''_serialized''])
       (\<lambda>a. if is_str a ''status@broadcast'' then Inr True
            else bindE (chain event [Dot ''data'', Opt ''data'', Opt ''from'', Opt ''user''])
                   (\<lambda>b. Inr (is_str b ''status'')))"

definition getEventTypeByAck :: "config \<Rightarrow> jsval \<Rightarrow> bool \<Rightarrow> error + jsval" where
  "getEventTypeByAck cfg ack isStatus =
     (let ackMap =
            (if isStatus
             then [(''1'', eventTypes_get cfg ''STATUS_CREATED''),
                   (''2'', eventTypes_get cfg ''STATUS_RECEIVED''),
                   (''3'', eventTypes_get cfg ''STATUS_READ'')]
             else [(''1'', eventTypes_get cfg ''MESSAGE_SENT''),
                   (''2'', eventTypes_get cfg ''MESSAGE_DELIVERED''),
                   (''3'', eventTypes_get cfg ''MESSAGE_READ''),
                   (''4'', eventTypes_get cfg ''MESSAGE_PLAYED'')])
      in orE (lookup_key ackMap ack)
             (Inr (if isStatus then JNull else eventTypes_get cfg ''MESSAGE_CREATED'')))"

definition isGroupMessage :: "jsval \<Rightarrow> error + jsval" where
  "isGroupMessage originalData =
     orE (bindE (chain originalData [Dot ''from'', Opt ''user'']) (\<lambda>u. opt_includes u ''@g.us''))
    (orE (bindE (chain originalData [Dot ''id'', Opt ''remote'', Opt ''user''])
            (\<lambda>u. opt_includes u ''@g.us''))
         (bindE (chain originalData [Dot ''__raw'', Opt ''from'']) (\<lambda>u. opt_includes u ''@g.us'')))"

text \<open>\<open>id.replace(/@(c\.us|lid)$/, '')\<close> on a string.\<close>

definition strip_suffix :: "string \<Rightarrow> string" where
  "strip_suffix s =
     (if ends_with ''@c.us'' s then take (length s - 5) s
      else if ends_with ''@lid'' s then take (length s - 4) s
      else s)"

definition normalizeId :: "jsval \<Rightarrow> error + jsval" where
  "normalizeId ident =
     (if truthy ident
      then (case ident of JStr s \<Rightarrow> Inr (JStr (strip_suffix s)) | _ \<Rightarrow> Inl TypeError)
      else Inr JNull)"

definition getMediaFormat :: "jsval \<Rightarrow> error + jsval" where
  "getMediaFormat originalData =
     bindE (chain originalData [Dot ''__raw'', Opt ''mimetype'']) (\<lambda>mimetype.
     bindE (if truthy mimetype
            then (case mimetype of
                    JStr s \<Rightarrow> Inr (starts_with ''audio/'' s \<or> starts_with ''video/'' s)
                  | _ \<Rightarrow> Inl TypeError)
            else Inr False) (\<lambda>isAudioOrVideo.
     bindE (chain originalData [Dot ''type'']) (\<lambda>ty.
     bindE (if is_str ty ''chat'' then Inr True
            else if isAudioOrVideo then Inr False
            else bindE (chain originalData [Dot ''body'']) (\<lambda>b. Inr (truthy b))) (\<lambda>isText.
       Inr (if truthy mimetype then mimetype
            else if isText then JStr ''text'' else JNull)))))"

definition buildBaseTransformedEvent ::
  "host \<Rightarrow> jsval \<Rightarrow> jsval \<Rightarrow> (string \<times> jsval) list \<Rightarrow> error + jsval" where
  "buildBaseTransformedEvent h event originalData transformedData =
     bindE (objE
       [(''internal_event_id'', chain event [Dot ''id'']),
        (''timestamp'',
           bindE (chain originalData [Dot ''timestamp'']) (\<lambda>ts.
             if truthy ts then date_iso h ts else chain event [Dot ''timestamp''])),
        (''data'', Inr (JObj transformedData))]) (\<lambda>kvs. Inr (JObj kvs))"

text \<open>
  \<open>shouldIgnoreEvent\<close>: \<open>Array.prototype.some\<close> over the rules, each compared with the
  inner data of the envelope, or with the raw event itself when it has no truthy inner
  data.
\<close>

definition rule_matches :: "jsval \<Rightarrow> ignore_rule \<Rightarrow> bool" where
  "rule_matches eventData ignored =
     (if strict_eq (if nullish eventData then JUndef else jsget eventData ''type'') (rule_type ignored)
      then (case rule_subtypes ignored of
              Some subtypes \<Rightarrow>
                (let st = (if nullish eventData then JUndef else jsget eventData ''subtype'');
                     st' = (if truthy st then st
                            else if nullish eventData then JUndef
                            else if nullish (jsget eventData ''__raw'') then JUndef
                            else jsget (jsget eventData ''__raw'') ''subtype'')
                 in list_ex (\<lambda>x. strict_eq x st') subtypes)
            | None \<Rightarrow> True)
      else False)"

definition shouldIgnoreEvent :: "config \<Rightarrow> jsval \<Rightarrow> error + bool" where
  "shouldIgnoreEvent cfg event =
     bindE (orE (chain event [Dot ''data'', Opt ''data'']) (chain event [Dot ''data''])) (\<lambda>eventData.
       Inr (list_ex (rule_matches eventData) (ignoredTypes cfg)))"

definition isIgnored :: "config \<Rightarrow> jsval \<Rightarrow> error + bool" where
  "isIgnored cfg event = shouldIgnoreEvent cfg event"

definition transformStatusEvent :: "config \<Rightarrow> host \<Rightarrow> jsval \<Rightarrow> error + jsval" where
  "transformStatusEvent cfg h event =
     bindE (isStatusEvent event) (\<lambda>isStatus.
     if \<not> isStatus then Inr JNull
     else
       bindE (chain event [Dot ''data'', Dot ''data'']) (\<lambda>originalData.
       bindE (chain originalData [Dot ''ack'']) (\<lambda>ack.
       bindE (getEventTypeByAck cfg ack True) (\<lambda>evType.
       if \<not> truthy evType then Inr JNull
       else
         bindE (objE
           [(''status_id'', orE (chain originalData [Dot ''id'', Opt ''id'']) (Inr JNull)),
            (''type'', Inr evType),
            (''format'', getMediaFormat originalData),
            (''status_author_number'',
               orE (chain originalData [Dot ''id'', Opt ''participant'', Opt ''user''])
              (orE (chain originalData [Dot ''from'', Opt ''user'']) (Inr JNull))),
            (''reader_number'', orE (chain originalData [Dot ''to'', Opt ''user'']) (Inr JNull)),
            (''read_time'',
               orE (bindE (chain originalData [Dot ''timestamp'']) opt_toString) (Inr JNull)),
            (''fromMe'', orE (chain originalData [Dot ''id'', Opt ''fromMe'']) (Inr (JBool False)))])
         (\<lambda>transformedData.
           let transformedData' =
                 (if truthy (jsget originalData ''body'') \<and> is_str (jsget originalData ''type'') ''chat''
                  then obj_set transformedData ''body'' (jsget originalData ''body'')
                  else transformedData)
           in buildBaseTransformedEvent h event originalData transformedData')))))"

definition handleNotificationTemplate ::
  "config \<Rightarrow> jsval \<Rightarrow> (string \<times> jsval) list \<Rightarrow> error + (string \<times> jsval) list" where
  "handleNotificationTemplate cfg originalData transformedData =
     bindE (chain originalData [Dot ''__raw'', Opt ''subtype'']) (\<lambda>subtype.
     if is_str subtype ''disappearing_mode''
     then
       bindE (orE (chain originalData [Dot ''__raw'', Opt ''ephemeralDuration'']) (Inr JNull)) (\<lambda>d.
       bindE (bindE (chain originalData [Dot ''__raw'', Opt ''ephemeralSettingUser'']) normalizeId) (\<lambda>u.
         Inr (obj_set (obj_set (obj_set transformedData
                ''type'' (eventTypes_get cfg ''DISAPPEARING_MODE_CHANGED''))
                ''ephemeral_duration'' d)
                ''setting_user'' u)))
     else
       Inr (obj_set transformedData ''notification_type''
              (if truthy subtype then subtype else JStr ''unknown'')))"

definition handleRevokedMessage ::
  "config \<Rightarrow> jsval \<Rightarrow> (string \<times> jsval) list \<Rightarrow> error + (string \<times> jsval) list" where
  "handleRevokedMessage cfg originalData transformedData =
     bindE (orE (bindE (chain originalData [Dot ''__raw'', Opt ''revokeTimestamp'']) opt_toString)
                (Inr JNull)) (\<lambda>rt.
     bindE (bindE (orE (chain originalData [Dot ''id'', Opt ''participant'', Opt ''user''])
                       (chain originalData [Dot ''__raw'', Opt ''author''])) normalizeId) (\<lambda>by.
     bindE (orE (chain originalData [Dot ''__raw'', Opt ''protocolMessageKey'', Opt ''id''])
                (Inr JNull)) (\<lambda>orig.
       Inr (obj_set (obj_set (obj_set (obj_set transformedData
              ''type'' (eventTypes_get cfg ''MESSAGE_REVOKED''))
              ''revoke_timestamp'' rt)
              ''revoked_by'' by)
              ''original_message_id'' orig))))"

text \<open>\<open>recipients.map(id => this._normalizeId(id))\<close>: the first throwing element ends it.\<close>

fun mapE :: "('a \<Rightarrow> error + 'b) \<Rightarrow> 'a list \<Rightarrow> error + 'b list" where
  "mapE f [] = Inr []"
| "mapE f (x # xs) = bindE (f x) (\<lambda>y. bindE (mapE f xs) (\<lambda>ys. Inr (y # ys)))"

definition handleGroupEvent ::
  "config \<Rightarrow> jsval \<Rightarrow> (string \<times> jsval) list \<Rightarrow> error + (string \<times> jsval) list" where
  "handleGroupEvent cfg originalData transformedData =
     bindE (chain originalData [Dot ''__raw'', Opt ''subtype'']) (\<lambda>subtype.
     bindE (orE (chain originalData [Dot ''__raw'', Opt ''recipients'']) (Inr (JArr []))) (\<lambda>recipients.
     bindE (orE (lookup_key (groupActions cfg) subtype)
                (Inr (if truthy subtype then subtype else JStr ''unknown''))) (\<lambda>action.
     bindE (case recipients of
              JArr ids \<Rightarrow> bindE (mapE normalizeId ids) (\<lambda>ns. Inr (JArr (filter truthy ns)))
            | _ \<Rightarrow> Inl TypeError) (\<lambda>rs.
     bindE (bindE (orE (chain originalData [Dot ''id'', Opt ''participant'', Opt ''user''])
                       (chain originalData [Dot ''__raw'', Opt ''author''])) normalizeId) (\<lambda>by.
       Inr (obj_set (obj_set (obj_set transformedData
              ''group_action'' action)
              ''recipients'' rs)
              ''action_by'' by))))))"

definition handleSpecialMessageTypes ::
  "config \<Rightarrow> jsval \<Rightarrow> (string \<times> jsval) list \<Rightarrow> error + (string \<times> jsval) list" where
  "handleSpecialMessageTypes cfg originalData transformedData =
     bindE (chain originalData [Dot ''type'']) (\<lambda>ty.
       if is_str ty ''notification_template''
       then handleNotificationTemplate cfg originalData transformedData
       else if is_str ty ''revoked'' then handleRevokedMessage cfg originalData transformedData
       else if is_str ty ''gp2'' then handleGroupEvent cfg originalData transformedData
       else Inr transformedData)"

definition transformChatMessage :: "config \<Rightarrow> host \<Rightarrow> jsval \<Rightarrow> error + jsval" where
  "transformChatMessage cfg h event =
     bindE (chain event [Dot ''data'', Opt ''data'']) (\<lambda>originalData.
     if \<not> truthy originalData
        \<or> \<not> list_ex (\<lambda>x. strict_eq x (jsget originalData ''type'')) (messageTypes cfg)
     then Inr JNull
     else
       bindE (bindE (chain originalData [Dot ''ack'']) (\<lambda>ack. getEventTypeByAck cfg ack False))
         (\<lambda>messageType.
       bindE (isGroupMessage originalData) (\<lambda>isGroup.
       bindE (objE
         [(''message_id'', orE (chain originalData [Dot ''id'', Opt ''id'']) (Inr JNull)),
          (''type'', Inr messageType),
          (''format'',
             orE (chain originalData [Dot ''__raw'', Opt ''mimetype''])
                 (chain originalData [Dot ''type''])),
          (''from_number'',
             if truthy isGroup
             then orE (chain originalData [Dot ''id'', Opt ''participant'', Opt ''user''])
                 (orE (bindE (chain originalData [Dot ''__raw'', Opt ''author'']) normalizeId)
                      (chain originalData [Dot ''from'', Opt ''user'']))
             else orE (chain originalData [Dot ''from'', Opt ''user'']) (Inr JNull)),
          (''to_number'', orE (chain originalData [Dot ''to'', Opt ''user'']) (Inr JNull)),
          (''isGroup'', Inr isGroup),
          (''group_id'',
             if truthy isGroup
             then orE (chain originalData [Dot ''from'', Opt ''user''])
                 (orE (chain originalData [Dot ''id'', Opt ''remote'', Opt ''user'']) (Inr JNull))
             else Inr JNull),
          (''fromMe'', orE (chain originalData [Dot ''id'', Opt ''fromMe'']) (Inr (JBool False))),
          (''message_time'',
             orE (bindE (chain originalData [Dot ''timestamp'']) opt_toString) (Inr JNull))])
         (\<lambda>transformedData.
       bindE (handleSpecialMessageTypes cfg originalData transformedData) (\<lambda>td.
         let td' =
               (if truthy (jsget originalData ''body'') \<and> is_str (jsget originalData ''type'') ''chat''
                then obj_set td ''body'' (jsget originalData ''body'')
                else td)
         in buildBaseTransformedEvent h event originalData td')))))"

text \<open>
  \<open>transform\<close>: the ignore check, then the chain of mappers, then the envelope itself.
\<close>

definition transform :: "config \<Rightarrow> host \<Rightarrow> jsval \<Rightarrow> error + jsval" where
  "transform cfg h event =
     bindE (shouldIgnoreEvent cfg event) (\<lambda>ignored.
     if ignored then Inr JNull
     else
       bindE (transformStatusEvent cfg h event) (\<lambda>statusTransformed.
       if truthy statusTransformed then Inr statusTransformed
       else
         bindE (transformChatMessage cfg h event) (\<lambda>chatTransformed.
         if truthy chatTransformed then Inr chatTransformed
         else Inr event)))"

section \<open>EventProcessor\<close>

text \<open>
  The transformer object is loaded at run time from \<open>templates/eventTransformers.js\<close>;
  the processor only calls its \<open>isIgnored\<close> and \<open>transform\<close> methods.
\<close>

record transformers =
  tr_isIgnored :: "jsval \<Rightarrow> error + bool"
  tr_transform :: "jsval \<Rightarrow> error + jsval"

definition EventTransformers :: "config \<Rightarrow> host \<Rightarrow> transformers" where
  "EventTransformers cfg h = \<lparr>tr_isIgnored = isIgnored cfg, tr_transform = transform cfg h\<rparr>"

text \<open>The object \<open>processEvent\<close> returns, by its \<open>action\<close>.\<close>

datatype action =
    Skip string
  | Ignore jsval jsval
  | Filter string jsval
  | Publish jsval jsval jsval bool
  | Failed error jsval

text \<open>
  \<open>EventProcessor.processEvent(rawEvent)\<close>. \<open>eid\<close> and \<open>ts\<close> are the fresh envelope id
  (\<open>Date.now() + Math.random()\<close>) and the current time as ISO text; \<open>loaded\<close> is
  \<open>this.eventTransformers\<close> after the attempt to load it, \<open>None\<close> when loading failed.
  \<open>Ignore eventData eventType\<close>, \<open>Filter reason eventType\<close>,
  \<open>Publish eventData originalEventData eventType wasTransformed\<close> and
  \<open>Failed error eventType\<close> carry the fields of the returned object. \<open>debug\<close> is
  \<open>config.debug.enabled\<close>: the message it logs for a filtered event converts
  \<open>rawEvent.type\<close> to a string. \<open>wasTransformed\<close> compares references; the model
  compares the values, which differ whenever a mapper has built a new event.
\<close>

definition processEvent ::
  "bool \<Rightarrow> transformers option \<Rightarrow> jsval \<Rightarrow> string \<Rightarrow> jsval \<Rightarrow> action" where
  "processEvent debug loaded eid ts rawEvent =
     (let eventData = JObj [(''id'', eid), (''timestamp'', JStr ts), (''data'', rawEvent)] in
      case loaded of
        None \<Rightarrow> Skip ''transformers_unavailable''
      | Some T \<Rightarrow>
          (case
             bindE (tr_isIgnored T eventData) (\<lambda>ignored.
             if ignored
             then bindE (chain rawEvent [Dot ''type'']) (\<lambda>ty. Inr (Ignore eventData ty))
             else
               bindE (tr_transform T eventData) (\<lambda>transformedEvent.
               if transformedEvent = JNull
               then bindE (chain rawEvent [Dot ''type'']) (\<lambda>ty.
                    bindE (if debug then js_toString ty else Inr []) (\<lambda>logged.
                      Inr (Filter ''filtered_by_transformer'' ty)))
               else bindE (chain rawEvent [Dot ''type''])
                      (\<lambda>ty. Inr (Publish transformedEvent eventData ty
                                    (transformedEvent \<noteq> eventData)))))
           of
             Inr r \<Rightarrow> r
           | Inl e \<Rightarrow>
               Failed e (let ty = (if nullish rawEvent then JUndef else jsget rawEvent ''type'')
                         in if truthy ty then ty else JStr ''unknown'')))"

section \<open>StatsCollector, NATSManager and the bridge (index.js)\<close>

text \<open>
  The counters of \<open>eventStats\<close> and \<open>messageStats\<close>. The tally by type
  (\<open>eventStats.byType\<close>) and the processing times (\<open>performanceStats\<close>) are left out: no
  other counter depends on them. \<open>attempts\<close> is the trace of the calls of
  \<open>publishEvent\<close> and \<open>publishIgnoredEvent\<close>, in order: subject, payload before
  \<open>JSON.stringify\<close>, and whether the publication succeeded. \<open>isRunning\<close>,
  \<open>pollingRetries\<close> and \<open>scheduled\<close> belong to the polling loop: \<open>scheduled\<close> is the
  delay of the pending \<open>setTimeout(pollEvents, _)\<close>, if any.
\<close>

record bridge =
  total :: nat
  errors :: nat
  filtered :: nat
  ignored :: nat
  mainSubject :: nat
  contactSubject :: nat
  ignoredSubject :: nat
  presenceSubject :: nat
  messageErrors :: nat
  attempts :: "(jsval \<times> jsval \<times> bool) list"
  isRunning :: bool
  pollingRetries :: int
  scheduled :: "int option"

datatype stat_action = Processed | ErrorAction | FilteredAction | IgnoredAction

text \<open>\<open>updateEventStats(eventType, action = 'processed')\<close>.\<close>

definition updateEventStats :: "stat_action \<Rightarrow> bridge \<Rightarrow> bridge" where
  "updateEventStats a s =
     (let s' = s\<lparr>total := total s + 1\<rparr> in
      case a of
        ErrorAction \<Rightarrow> s'\<lparr>errors := errors s' + 1\<rparr>
      | FilteredAction \<Rightarrow> s'\<lparr>filtered := filtered s' + 1\<rparr>
      | IgnoredAction \<Rightarrow> s'\<lparr>ignored := ignored s' + 1\<rparr>
      | Processed \<Rightarrow> s')"

record nats_config =
  subject :: jsval
  natsContactSubject :: jsval
  natsIgnoredSubject :: jsval
  precenseSubject :: jsval

record polling_config =
  maxRetries :: int
  retryDelay :: int
  interval :: int

text \<open>\<open>updateMessageStats(subject, success = true)\<close>.\<close>

definition updateMessageStats :: "nats_config \<Rightarrow> jsval \<Rightarrow> bool \<Rightarrow> bridge \<Rightarrow> bridge" where
  "updateMessageStats nc subj success s =
     (if \<not> success then s\<lparr>messageErrors := messageErrors s + 1\<rparr>
      else if strict_eq subj (subject nc) then s\<lparr>mainSubject := mainSubject s + 1\<rparr>
      else if strict_eq subj (natsContactSubject nc) then s\<lparr>contactSubject := contactSubject s + 1\<rparr>
      else if strict_eq subj (natsIgnoredSubject nc) then s\<lparr>ignoredSubject := ignoredSubject s + 1\<rparr>
      else if strict_eq subj (precenseSubject nc) then s\<lparr>presenceSubject := presenceSubject s + 1\<rparr>
      else s)"

definition isContactEvent :: "jsval \<Rightarrow> bool" where
  "isContactEvent ty =
     list_ex (\<lambda>x. strict_eq (JStr x) ty)
       [''contact_add'', ''contact_change'', ''contact_remove'', ''contacts_initial'']"

definition isPresenceEvent :: "jsval \<Rightarrow> bool" where
  "isPresenceEvent ty =
     list_ex (\<lambda>x. strict_eq (JStr x) ty)
       [''presence_add'', ''presence_change'', ''presence_remove'', ''presence_initial'']"

definition determineSubject :: "nats_config \<Rightarrow> jsval \<Rightarrow> jsval" where
  "determineSubject nc ty =
     (if isContactEvent ty then natsContactSubject nc
      else if isPresenceEvent ty
      then (if truthy (precenseSubject nc) then precenseSubject nc else JStr ''whatsapp.precense'')
      else subject nc)"

text \<open>
  The environment of one bridge: the configuration, the loaded transformers, and the
  broker connection. \<open>link n\<close> tells whether the publication asked after \<open>n\<close> earlier ones
  succeeds; when it does not (no connection, or \<open>connection.publish\<close> throws),
  \<open>publishEvent\<close> and \<open>publishIgnoredEvent\<close> throw.
\<close>

record env =
  nats :: nats_config
  polling :: polling_config
  debug_enabled :: bool
  loaded :: "transformers option"
  link :: "nat \<Rightarrow> bool"

definition publish :: "env \<Rightarrow> jsval \<Rightarrow> jsval \<Rightarrow> bridge \<Rightarrow> bool \<times> bridge" where
  "publish e subj payload s =
     (let ok = link e (length (attempts s))
      in (ok, s\<lparr>attempts := attempts s @ [(subj, payload, ok)]\<rparr>))"

text \<open>
  A raw event as the injected listeners push it:
  \<open>{type: '...', data: ..., timestamp: Date.now()}\<close>. An arrival is a raw event with the
  envelope id and the time stamp that the processor draws for it.
\<close>

record raw_event =
  ev_type :: string
  ev_data :: jsval
  ev_timestamp :: int

definition raw_to_js :: "raw_event \<Rightarrow> jsval" where
  "raw_to_js r =
     JObj [(''type'', JStr (ev_type r)), (''data'', ev_data r), (''timestamp'', JNum (ev_timestamp r))]"

record arrival =
  raw :: raw_event
  envelope_id :: jsval
  envelope_ts :: string

text \<open>
  The text logged for a transformed event when debugging is enabled:
  \<open>`${result.eventType} -> ${result.eventData.data.type || result.eventType}`\<close>.
\<close>

definition transformation_log :: "jsval \<Rightarrow> jsval \<Rightarrow> error + string" where
  "transformation_log eventData ty =
     bindE (js_toString ty) (\<lambda>a.
     bindE (orE (chain eventData [Dot ''data'', Dot ''type'']) (Inr ty)) (\<lambda>v.
     bindE (js_toString v) (\<lambda>b. Inr (a @ '' -> '' @ b))))"

text \<open>
  The \<open>try\<close> block of \<open>WhatsAppBridge.processEvent\<close>: the state it leaves, and whether it
  completed (\<open>True\<close>) or threw (\<open>False\<close>). Of the console output only the conversions
  that can throw are modelled.
\<close>

definition processEvent_try :: "env \<Rightarrow> arrival \<Rightarrow> bridge \<Rightarrow> bool \<times> bridge" where
  "processEvent_try e a s =
     (let s1 = updateEventStats Processed s in
      case processEvent (debug_enabled e) (loaded e) (envelope_id a) (envelope_ts a)
             (raw_to_js (raw a)) of
        Publish eventData originalEventData ty wasTransformed \<Rightarrow>
          (let (ok, s2) = publish e (determineSubject (nats e) ty) eventData s1
           in if ok
              then (let s3 = updateMessageStats (nats e) (determineSubject (nats e) ty) True s2
                    in if wasTransformed \<and> debug_enabled e
                       then (case transformation_log eventData ty of
                               Inr logged \<Rightarrow> (True, s3)
                             | Inl err \<Rightarrow> (False, s3))
                       else (True, s3))
              else (False, s2))
      | Ignore eventData ty \<Rightarrow>
          (let (ok, s2) = publish e (natsIgnoredSubject (nats e)) eventData s1
           in if ok
              then (True, updateEventStats IgnoredAction
                            (updateMessageStats (nats e) (natsIgnoredSubject (nats e)) True s2))
              else (False, s2))
      | Filter reason ty \<Rightarrow> (True, updateEventStats FilteredAction s1)
      | Skip reason \<Rightarrow> (True, s1)
      | Failed err ty \<Rightarrow> (True, updateEventStats ErrorAction s1))"

text \<open>\<open>WhatsAppBridge.processEvent\<close>: the \<open>catch\<close> block counts an error.\<close>

definition bridge_processEvent :: "env \<Rightarrow> arrival \<Rightarrow> bridge \<Rightarrow> bridge" where
  "bridge_processEvent e a s =
     (let (ok, s') = processEvent_try e a s
      in if ok then s' else updateEventStats ErrorAction s')"

text \<open>\<open>for (const event of events) await this.processEvent(event)\<close>.\<close>

fun process_batch :: "env \<Rightarrow> arrival list \<Rightarrow> bridge \<Rightarrow> bridge" where
  "process_batch e [] s = s"
| "process_batch e (a # as) s = process_batch e as (bridge_processEvent e a s)"

section \<open>Polling scheduler (index.js, \<open>startEventPolling\<close>)\<close>

definition handleBrowserClose :: "bridge \<Rightarrow> bridge" where
  "handleBrowserClose s = (if isRunning s then s\<lparr>isRunning := False\<rparr> else s)"

definition fatal :: "string \<Rightarrow> bool" where
  "fatal message =
     (str_includes ''Session closed'' message \<or> str_includes ''detached Frame'' message
      \<or> str_includes ''Protocol error'' message)"

text \<open>
  What one run of \<open>pollEvents\<close> meets: whether \<open>browserManager.isAlive()\<close> holds, and
  what \<open>browserManager.pollEvents()\<close> gives, a batch or an error with its message.
\<close>

record tick =
  alive :: bool
  polled :: "string + arrival list"

text \<open>
  One run of the closure \<open>pollEvents\<close>. It starts with no timer pending (the timer that
  started it has fired) and leaves in \<open>scheduled\<close> the timer it sets, if any.
\<close>

definition pollEvents :: "env \<Rightarrow> tick \<Rightarrow> bridge \<Rightarrow> bridge" where
  "pollEvents e t s0 =
     (let s = s0\<lparr>scheduled := None\<rparr> in
      if \<not> isRunning s then s
      else if \<not> alive t then handleBrowserClose s
      else
        case polled t of
          Inr events \<Rightarrow>
            (let s1 = (process_batch e events s)\<lparr>pollingRetries := 0\<rparr>
             in if isRunning s1 then s1\<lparr>scheduled := Some (interval (polling e))\<rparr> else s1)
        | Inl message \<Rightarrow>
            (let s1 = s\<lparr>pollingRetries := pollingRetries s + 1\<rparr> in
             if fatal message then handleBrowserClose s1
             else if pollingRetries s1 \<ge> maxRetries (polling e) then handleBrowserClose s1
             else s1\<lparr>scheduled := Some (retryDelay (polling e))\<rparr>))"

text \<open>
  The loop: \<open>pollEvents\<close> runs again only when a timer is pending. \<open>startEventPolling\<close>
  sets the counter to zero and calls \<open>pollEvents\<close> once itself.
\<close>

fun run_ticks :: "env \<Rightarrow> tick list \<Rightarrow> bridge \<Rightarrow> bridge" where
  "run_ticks e [] s = s"
| "run_ticks e (t # ts) s =
     (if scheduled s = None then s else run_ticks e ts (pollEvents e t s))"

definition startEventPolling :: "env \<Rightarrow> tick list \<Rightarrow> bridge \<Rightarrow> bridge" where
  "startEventPolling e ts s =
     (case ts of
        [] \<Rightarrow> s\<lparr>pollingRetries := 0\<rparr>
      | t # ts' \<Rightarrow> run_ticks e ts' (pollEvents e t (s\<lparr>pollingRetries := 0\<rparr>)))"

section \<open>Vocabulary of the properties\<close>

subsection \<open>Runs of the deduplication filter\<close>

text \<open>
  A run of the filter: the calls in order, each with its message, its event type and its
  two clock readings, the cache threaded through.
\<close>

fun feed :: "(jsval \<times> string \<times> int \<times> int) list \<Rightarrow> cache \<Rightarrow> error + cache" where
  "feed [] c = Inr c"
| "feed ((msg, eventType, now, now') # r) c =
     bindE (shouldProcessMessage msg eventType now now' c) (\<lambda>(b, c'). feed r c')"

text \<open>A message without an id, and a message with one.\<close>

definition no_id_msg :: jsval where
  "no_id_msg = JObj [(''body'', JStr ''hello''), (''type'', JStr ''chat'')]"


text \<open>
  A burst of \<open>n\<close> new messages in the same millisecond: message \<open>i\<close> has the id
  \<open>a...a\<close> of \<open>i + 1\<close> letters. \<open>burst_cache n\<close> is the cache the burst leaves.
\<close>

definition burst_msg :: "nat \<Rightarrow> jsval" where
  "burst_msg i = JObj [(''id'', JObj [(''_serialized'', JStr (replicate (Suc i) CHR ''a''))])]"

definition burst_key :: "nat \<Rightarrow> string" where
  "burst_key i = replicate (Suc i) CHR ''a'' @ ''_create_0''"

definition burst :: "nat \<Rightarrow> (jsval \<times> string \<times> int \<times> int) list" where
  "burst n = map (\<lambda>i. (burst_msg i, ''create'', 0, 0)) [0..<n]"

definition burst_cache :: "nat \<Rightarrow> cache" where
  "burst_cache n = map (\<lambda>i. (burst_key i, 0)) [0..<n]"

subsection \<open>Events that do not throw\<close>

text \<open>\<open>returns r\<close>: the computation \<open>r\<close> gives a value, it does not throw.\<close>

definition returns :: "error + 'a \<Rightarrow> bool" where
  "returns r = (case r of Inr v \<Rightarrow> True | Inl e \<Rightarrow> False)"

fun all_opt :: "access list \<Rightarrow> bool" where
  "all_opt [] = True"
| "all_opt (Opt k # r) = all_opt r"
| "all_opt (Dot k # r) = False"

text \<open>The inner data of an envelope, \<open>event.data.data\<close>, \<open>undefined\<close> when there is none.\<close>

definition inner :: "jsval \<Rightarrow> jsval" where
  "inner ev = jsget (jsget ev ''data'') ''data''"

text \<open>
  The types the mappers expect of the fields they use, when the field is there: a
  string for \<open>replace\<close> and \<open>startsWith\<close>, a string or an array for \<open>includes\<close>, a
  value that converts to a string for \<open>toString\<close> and for a computed key, a number of
  seconds within the range of \<open>Date\<close>, an array of strings for the recipients.
\<close>

definition str_or_falsy :: "jsval \<Rightarrow> bool" where
  "str_or_falsy v = (case v of JStr s \<Rightarrow> True | _ \<Rightarrow> \<not> truthy v)"

definition searchable :: "jsval \<Rightarrow> bool" where
  "searchable v =
     (case v of JUndef \<Rightarrow> True | JNull \<Rightarrow> True | JStr s \<Rightarrow> True | JArr xs \<Rightarrow> True | _ \<Rightarrow> False)"

definition stringable :: "jsval \<Rightarrow> bool" where
  "stringable v = returns (js_toString v)"

definition date_ok :: "jsval \<Rightarrow> bool" where
  "date_ok v = (case v of JNum n \<Rightarrow> \<bar>n * 1000\<bar> \<le> 8640000000000000 | _ \<Rightarrow> \<not> truthy v)"

definition recipients_ok :: "jsval \<Rightarrow> bool" where
  "recipients_ok v = (case v of JArr ids \<Rightarrow> list_all str_or_falsy ids | _ \<Rightarrow> \<not> truthy v)"

definition well_typed :: "jsval \<Rightarrow> bool" where
  "well_typed d =
     (stringable (jsget d ''ack'')
      \<and> date_ok (jsget d ''timestamp'')
      \<and> searchable (jsget (jsget d ''from'') ''user'')
      \<and> searchable (jsget (jsget (jsget d ''id'') ''remote'') ''user'')
      \<and> str_or_falsy (jsget (jsget (jsget d ''id'') ''participant'') ''user'')
      \<and> searchable (jsget (jsget d ''__raw'') ''from'')
      \<and> str_or_falsy (jsget (jsget d ''__raw'') ''mimetype'')
      \<and> str_or_falsy (jsget (jsget d ''__raw'') ''author'')
      \<and> str_or_falsy (jsget (jsget d ''__raw'') ''ephemeralSettingUser'')
      \<and> stringable (jsget (jsget d ''__raw'') ''revokeTimestamp'')
      \<and> stringable (jsget (jsget d ''__raw'') ''subtype'')
      \<and> recipients_ok (jsget (jsget d ''__raw'') ''recipients''))"

subsection \<open>Ack levels\<close>





subsection \<open>The bridge\<close>

text \<open>What the processor returns for an arrival, and whether that reaches a publication.\<close>

definition action_of :: "env \<Rightarrow> arrival \<Rightarrow> action" where
  "action_of e a =
     processEvent (debug_enabled e) (loaded e) (envelope_id a) (envelope_ts a) (raw_to_js (raw a))"


text \<open>
  The outcome of one arrival, read off the run of \<open>WhatsAppBridge.processEvent\<close>: an
  exception caught by its \<open>catch\<close> block is an error, otherwise the outcome is the action
  the processor returned. \<open>batch_outcomes\<close> lists the outcomes of a batch in order.
\<close>

datatype outcome = WasPublished | WasIgnored | WasFiltered | WasSkipped | WasErrored

definition outcome_of :: "env \<Rightarrow> arrival \<Rightarrow> bridge \<Rightarrow> outcome" where
  "outcome_of e a s =
     (if fst (processEvent_try e a s)
      then (case action_of e a of
              Publish _ _ _ _ \<Rightarrow> WasPublished
            | Ignore _ _ \<Rightarrow> WasIgnored
            | Filter _ _ \<Rightarrow> WasFiltered
            | Skip _ \<Rightarrow> WasSkipped
            | Failed _ _ \<Rightarrow> WasErrored)
      else WasErrored)"

fun batch_outcomes :: "env \<Rightarrow> arrival list \<Rightarrow> bridge \<Rightarrow> outcome list" where
  "batch_outcomes e [] s = []"
| "batch_outcomes e (a # as) s = outcome_of e a s # batch_outcomes e as (bridge_processEvent e a s)"

definition counted_once :: "outcome \<Rightarrow> bool" where
  "counted_once out = (out = WasPublished \<or> out = WasSkipped)"

definition counted_twice :: "outcome \<Rightarrow> bool" where
  "counted_twice out = (out = WasIgnored \<or> out = WasFiltered \<or> out = WasErrored)"

text \<open>A run of \<open>pollEvents\<close> in which the browser is alive and the poll fails.\<close>

definition err_tick :: "string \<Rightarrow> tick" where
  "err_tick message = \<lparr>alive = True, polled = Inl message\<rparr>"

subsection \<open>Ignore rules, in the specification's words\<close>





subsection \<open>Normalized events\<close>

text \<open>A normalized event: \<open>{internal_event_id, timestamp, data: {...}}\<close>.\<close>

definition is_normalized :: "jsval \<Rightarrow> bool" where
  "is_normalized r =
     (case r of
        JObj [(k1, i), (k2, t), (k3, JObj d)] \<Rightarrow>
          k1 = ''internal_event_id'' \<and> k2 = ''timestamp'' \<and> k3 = ''data''
      | _ \<Rightarrow> False)"


subsection \<open>Concrete inputs\<close>

text \<open>
  A host, a configuration and a state for the concrete cases. The host writes an instant
  as its count of milliseconds; none of the cases depends on that text.
\<close>

definition sample_host :: host where
  "sample_host = \<lparr>iso = num_to_string, iso_coerced = (\<lambda>v. Inl RangeError)\<rparr>"

definition sample_nats :: nats_config where
  "sample_nats =
     \<lparr>subject = JStr ''whatsapp.events'', natsContactSubject = JStr ''whatsapp.contacts'',
      natsIgnoredSubject = JStr ''whatsapp.ignored'', precenseSubject = JStr ''whatsapp.precense''\<rparr>"

definition sample_env :: env where
  "sample_env =
     \<lparr>nats = sample_nats,
      polling = \<lparr>maxRetries = 3, retryDelay = 5000, interval = 1000\<rparr>,
      debug_enabled = False,
      loaded = Some (EventTransformers default_config sample_host),
      link = (\<lambda>n. True)\<rparr>"

definition offline_env :: env where
  "offline_env = sample_env\<lparr>link := (\<lambda>n. False)\<rparr>"

definition started :: bridge where
  "started =
     \<lparr>total = 0, errors = 0, filtered = 0, ignored = 0, mainSubject = 0, contactSubject = 0,
      ignoredSubject = 0, presenceSubject = 0, messageErrors = 0, attempts = [],
      isRunning = True, pollingRetries = 0, scheduled = Some 1000\<rparr>"

text \<open>Envelopes and arrivals: a connection notice, and a chat message delivered (ack 2).\<close>

definition connection_event :: jsval where
  "connection_event =
     JObj [(''id'', JNum 1), (''timestamp'', JStr ''t''),
           (''data'', JObj [(''type'', JStr ''connection_state''),
                            (''data'', JObj [(''state'', JStr ''CONNECTED'')]),
                            (''timestamp'', JNum 0)])]"

definition chat_arrival :: arrival where
  "chat_arrival =
     \<lparr>raw = \<lparr>ev_type = ''message_delivered'',
              ev_data = JObj [(''id'', JObj [(''id'', JStr ''A1'')]), (''type'', JStr ''chat''),
                              (''ack'', JNum 2), (''body'', JStr ''hi'')],
              ev_timestamp = 0\<rparr>,
      envelope_id = JNum 7, envelope_ts = ''t''\<rparr>"

text \<open>A message that could not be decrypted, which the default rules ignore.\<close>

definition cipher_arrival :: arrival where
  "cipher_arrival =
     \<lparr>raw = \<lparr>ev_type = ''message_create'',
              ev_data = JObj [(''id'', JObj [(''id'', JStr ''B2'')]), (''type'', JStr ''ciphertext'')],
              ev_timestamp = 0\<rparr>,
      envelope_id = JNum 8, envelope_ts = ''t''\<rparr>"


definition delivered_event :: jsval where
  "delivered_event =
     JObj [(''id'', JNum 7), (''timestamp'', JStr ''t''),
           (''data'',
            JObj [(''type'', JStr ''message_delivered''),
                  (''data'',
                   JObj [(''id'', JObj [(''id'', JStr ''A1'')]), (''type'', JStr ''chat''),
                         (''ack'', JNum 2), (''body'', JStr ''hi'')]),
                  (''timestamp'', JNum 0)])]"

definition bad_event :: jsval where
  "bad_event =
     JObj [(''id'', JNum 1), (''timestamp'', JStr ''t''),
           (''data'',
            JObj [(''type'', JStr ''message_create''),
                  (''data'', JObj [(''type'', JStr ''chat''), (''from'', JObj [(''user'', JNum 5)])]),
                  (''timestamp'', JNum 0)])]"


section \<open>Basic facts\<close>

lemma bindE_Inr [simp]: "bindE (Inr v) f = f v"
  by (simp add: bindE_def)

lemma bindE_Inl [simp]: "bindE (Inl e) f = Inl e"
  by (simp add: bindE_def)

lemma num_to_string_0: "num_to_string 0 = ''0''"
  by (simp add: num_to_string_def nat_to_string.simps digit_char_def)

lemma num_to_string_2: "num_to_string 2 = ''2''"
  by (simp add: num_to_string_def nat_to_string.simps digit_char_def)

section \<open>The deduplication filter\<close>

text \<open>
  Claim C1, as the specification states it: an event without an extractable identifier
  always passes the filter. The code does the opposite. A message without an id is
  refused on its first sighting:
\<close>

theorem C1_no_id_refused: "shouldProcessMessage no_id_msg ''create'' 0 0 [] = Inr (False, [])"
  by (simp add: shouldProcessMessage_def no_id_msg_def)

text \<open>
  Claim C1, amended: for every message that is falsy, or whose \<open>id\<close> is falsy, or whose
  \<open>id._serialized\<close> is falsy, \<open>shouldProcessMessage\<close> returns false, whatever the event
  type, the time and the cache, and it leaves the cache as it was. Such events are always
  suppressed, however often they are seen.
\<close>

theorem C1_unidentified_suppressed:
  assumes "\<not> truthy msg \<or> \<not> truthy (jsget msg ''id'')
           \<or> \<not> truthy (jsget (jsget msg ''id'') ''_serialized'')"
  shows "shouldProcessMessage msg eventType now now' c = Inr (False, c)"
  using assms by (auto simp add: shouldProcessMessage_def)

theorem C1_unidentified_suppressed_witness:
  "\<not> truthy (jsget no_id_msg ''id'')
   \<and> shouldProcessMessage no_id_msg ''create'' 5 5 [(''m1_create_0'', 0)]
       = Inr (False, [(''m1_create_0'', 0)])"
proof -
  have h: "\<not> truthy (jsget no_id_msg ''id'')" by (simp add: no_id_msg_def)
  then have "\<not> truthy no_id_msg \<or> \<not> truthy (jsget no_id_msg ''id'')
             \<or> \<not> truthy (jsget (jsget no_id_msg ''id'') ''_serialized'')" by simp
  from C1_unidentified_suppressed[OF this] h show ?thesis by simp
qed



lemma feed_append: "feed (xs @ ys) c = bindE (feed xs c) (feed ys)"
  by (induction xs arbitrary: c) (auto simp: bindE_def split: sum.splits)

lemma burst_key_inj: "burst_key i = burst_key j \<Longrightarrow> i = j"
proof -
  assume "burst_key i = burst_key j"
  then have "length (burst_key i) = length (burst_key j)" by simp
  then show "i = j" by (simp add: burst_key_def)
qed

lemma burst_key_fresh: "\<not> cache_has (burst_cache n) (burst_key n)"
  by (auto simp: cache_has_def burst_cache_def dest: burst_key_inj)

lemma burst_dedup_key:
  "dedup_key (JStr (replicate (Suc i) CHR ''a'')) ''create'' JUndef = Inr (burst_key i)"
  by (simp add: dedup_key_def num_to_string_0 burst_key_def)

lemma burst_sweep: "sweep (0 - 5 * 60 * 1000) (burst_cache n) = burst_cache n"
  by (simp add: sweep_def burst_cache_def filter_map o_def)

lemma burst_cache_Suc: "burst_cache (Suc n) = burst_cache n @ [(burst_key n, 0)]"
  by (simp add: burst_cache_def)

lemma burst_step:
  "shouldProcessMessage (burst_msg n) ''create'' 0 0 (burst_cache n)
     = Inr (True, burst_cache (Suc n))"
proof -
  have k: "dedup_key (jsget (jsget (burst_msg n) ''id'') ''_serialized'') ''create''
             (jsget (burst_msg n) ''ack'') = Inr (burst_key n)"
    using burst_dedup_key[of n] by (simp add: burst_msg_def)
  have s: "cache_set (burst_cache n) (burst_key n) 0 = burst_cache (Suc n)"
    using burst_key_fresh[of n] by (simp add: cache_set_def burst_cache_Suc)
  have t: "truthy (burst_msg n)" "truthy (jsget (burst_msg n) ''id'')"
      "truthy (jsget (jsget (burst_msg n) ''id'') ''_serialized'')"
    by (simp_all add: burst_msg_def)
  show ?thesis
    unfolding shouldProcessMessage_def
    using burst_key_fresh[of n] burst_sweep[of "Suc n"] by (simp add: k s t Let_def)
qed

lemma feed_burst: "feed (burst n) [] = Inr (burst_cache n)"
proof (induction n)
  case 0
  show ?case by (simp add: burst_def burst_cache_def)
next
  case (Suc n)
  have "burst (Suc n) = burst n @ [(burst_msg n, ''create'', 0, 0)]"
    by (simp add: burst_def)
  then show ?case using Suc burst_step[of n] by (simp add: feed_append)
qed

text \<open>
  Claim C5, as the specification states it: the cache never holds more than the ceiling
  of 1000 entries plus one pending insert. The sweep only deletes entries older than five
  minutes, so 1002 new keys within one millisecond all stay:
\<close>

theorem C5_burst_exceeds_ceiling:
  "feed (burst 1002) [] = Inr (burst_cache 1002) \<and> \<not> length (burst_cache 1002) \<le> 1000 + 1"
  using feed_burst[of 1002] by (simp add: burst_cache_def)

text \<open>
  Claim C5, amended: an insertion adds one entry and, when that leaves more than 1000
  entries, sweeps once; after the insertion the cache holds at most 1000 entries or no
  entry older than five minutes (300000 ms before the clock reading of the sweep). The
  size itself has no bound: keys inserted within five minutes all stay.
\<close>

theorem C5_sweep_leaves_recent:
  assumes "shouldProcessMessage msg eventType now now' c = Inr (True, c')"
  shows "(length c' \<le> 1000 \<or> list_all (\<lambda>(k, t). now' - 300000 \<le> t) c')
         \<and> length c' \<le> length c + 1"
  using assms
  by (auto simp add: shouldProcessMessage_def Let_def sweep_def cache_set_def list_all_iff bindE_def
      split: if_splits sum.splits intro: le_trans[OF length_filter_le])

theorem C5_sweep_leaves_recent_witness:
  "shouldProcessMessage (burst_msg 1001) ''create'' 0 0 (burst_cache 1001)
     = Inr (True, burst_cache 1002)
   \<and> (length (burst_cache 1002) \<le> 1000
        \<or> list_all (\<lambda>(k, t). (0::int) - 300000 \<le> t) (burst_cache 1002))
   \<and> length (burst_cache 1002) \<le> length (burst_cache 1001) + 1"
proof -
  have h: "shouldProcessMessage (burst_msg 1001) ''create'' 0 0 (burst_cache 1001)
             = Inr (True, burst_cache 1002)"
    using burst_step[of 1001] by simp
  from C5_sweep_leaves_recent[OF h] h show ?thesis by simp
qed

section \<open>Member chains\<close>

lemma jsget_nullish [simp]: "nullish v \<Longrightarrow> jsget v k = JUndef"
  by (cases v) simp_all

lemma chain_undef: "all_opt r \<Longrightarrow> chain JUndef r = Inr JUndef"
  by (induction r rule: all_opt.induct) simp_all

lemma chain_Opt: "all_opt r \<Longrightarrow> chain v (Opt k # r) = chain (jsget v k) r"
  by (simp add: chain_undef)

lemma chain_Dot: "\<not> nullish v \<Longrightarrow> chain v (Dot k # r) = chain (jsget v k) r"
  by simp

lemmas chain_simps = chain_Opt chain_Dot

declare chain.simps(2,3) [simp del]

lemma truthy_not_nullish: "truthy v \<Longrightarrow> \<not> nullish v"
  by (cases v) simp_all

text \<open>The definitions that the evaluation of a concrete case unfolds.\<close>

lemmas eval_defs =
  action_of_def processEvent_def sample_env_def offline_env_def sample_nats_def raw_to_js_def
  EventTransformers_def isIgnored_def shouldIgnoreEvent_def rule_matches_def default_config_def
  getDefaultIgnoredTypes_def getDefaultMessageTypes_def getDefaultEventTypes_def
  getDefaultGroupActions_def transform_def transformStatusEvent_def transformChatMessage_def
  isStatusEvent_def getEventTypeByAck_def isGroupMessage_def opt_includes_def opt_toString_def
  lookup_key_def handleSpecialMessageTypes_def buildBaseTransformedEvent_def date_iso_def
  sample_host_def orE_def is_str_def eventTypes_get_def obj_set_def Let_def chain.simps

section \<open>The passthrough of the transformation engine\<close>

lemma transformStatusEvent_not_status:
  "isStatusEvent ev = Inr False \<Longrightarrow> transformStatusEvent cfg h ev = Inr JNull"
  by (simp add: transformStatusEvent_def)

lemma transformChatMessage_declines:
  assumes "\<not> nullish ev"
    and "\<not> list_ex (\<lambda>x. strict_eq x (jsget (inner ev) ''type'')) (messageTypes cfg)"
  shows "transformChatMessage cfg h ev = Inr JNull"
  using assms by (simp add: transformChatMessage_def chain_simps inner_def)

lemma shouldIgnoreEvent_not_nullish: "shouldIgnoreEvent cfg ev = Inr b \<Longrightarrow> \<not> nullish ev"
  by (auto simp: shouldIgnoreEvent_def orE_def chain.simps bindE_def split: if_splits sum.splits)

text \<open>
  Claim C6: an event that no ignore rule matches, that is no status event and whose inner
  type is not among the configured message types comes out of \<open>transform\<close> as it went in:
  the result is the envelope itself, it is not null (nothing is dropped), and
  transforming the result again gives the same.
\<close>

theorem C6_passthrough_identity:
  assumes "shouldIgnoreEvent cfg ev = Inr False"
    and "isStatusEvent ev = Inr False"
    and "\<not> list_ex (\<lambda>x. strict_eq x (jsget (inner ev) ''type'')) (messageTypes cfg)"
  shows "transform cfg h ev = Inr ev
         \<and> transform cfg h ev \<noteq> Inr JNull
         \<and> bindE (transform cfg h ev) (transform cfg h) = Inr ev"
proof -
  have nn: "\<not> nullish ev" using assms(1) by (rule shouldIgnoreEvent_not_nullish)
  have t: "transform cfg h ev = Inr ev"
    using assms(1) transformStatusEvent_not_status[OF assms(2)]
      transformChatMessage_declines[OF nn assms(3)]
    by (simp add: transform_def)
  then show ?thesis using nn by auto
qed

theorem C6_passthrough_identity_witness:
  "shouldIgnoreEvent default_config connection_event = Inr False
   \<and> isStatusEvent connection_event = Inr False
   \<and> transform default_config sample_host connection_event = Inr connection_event
   \<and> bindE (transform default_config sample_host connection_event)
        (transform default_config sample_host) = Inr connection_event"
proof -
  have i: "shouldIgnoreEvent default_config connection_event = Inr False"
    by (simp add: connection_event_def eval_defs)
  have st: "isStatusEvent connection_event = Inr False"
    by (simp add: connection_event_def eval_defs)
  have ty: "\<not> list_ex (\<lambda>x. strict_eq x (jsget (inner connection_event) ''type''))
                 (messageTypes default_config)"
    by (simp add: connection_event_def inner_def eval_defs)
  from C6_passthrough_identity[OF i st ty, of sample_host] i st show ?thesis by simp
qed

section \<open>The bridge and the polling scheduler\<close>

lemma updateEventStats_fields [simp]:
  "isRunning (updateEventStats a s) = isRunning s"
  "pollingRetries (updateEventStats a s) = pollingRetries s"
  "scheduled (updateEventStats a s) = scheduled s"
  "attempts (updateEventStats a s) = attempts s"
  "total (updateEventStats a s) = total s + 1"
  "errors (updateEventStats a s) = errors s + (if a = ErrorAction then 1 else 0)"
  "filtered (updateEventStats a s) = filtered s + (if a = FilteredAction then 1 else 0)"
  "ignored (updateEventStats a s) = ignored s + (if a = IgnoredAction then 1 else 0)"
  by (simp_all add: updateEventStats_def Let_def split: stat_action.splits)

lemma updateMessageStats_fields [simp]:
  "isRunning (updateMessageStats nc subj ok s) = isRunning s"
  "pollingRetries (updateMessageStats nc subj ok s) = pollingRetries s"
  "scheduled (updateMessageStats nc subj ok s) = scheduled s"
  "attempts (updateMessageStats nc subj ok s) = attempts s"
  "total (updateMessageStats nc subj ok s) = total s"
  "errors (updateMessageStats nc subj ok s) = errors s"
  "filtered (updateMessageStats nc subj ok s) = filtered s"
  "ignored (updateMessageStats nc subj ok s) = ignored s"
  by (simp_all add: updateMessageStats_def)

lemma publish_fields [simp]:
  "fst (publish e subj p s) = link e (length (attempts s))"
  "isRunning (snd (publish e subj p s)) = isRunning s"
  "pollingRetries (snd (publish e subj p s)) = pollingRetries s"
  "scheduled (snd (publish e subj p s)) = scheduled s"
  "total (snd (publish e subj p s)) = total s"
  "errors (snd (publish e subj p s)) = errors s"
  "filtered (snd (publish e subj p s)) = filtered s"
  "ignored (snd (publish e subj p s)) = ignored s"
  "attempts (snd (publish e subj p s)) = attempts s @ [(subj, p, link e (length (attempts s)))]"
  by (simp_all add: publish_def Let_def)

lemma processEvent_try_fields:
  "isRunning (snd (processEvent_try e a s)) = isRunning s"
  "pollingRetries (snd (processEvent_try e a s)) = pollingRetries s"
  "scheduled (snd (processEvent_try e a s)) = scheduled s"
  by (simp_all add: processEvent_try_def Let_def split_beta split: action.splits sum.splits)

lemma bridge_processEvent_fields [simp]:
  "isRunning (bridge_processEvent e a s) = isRunning s"
  "pollingRetries (bridge_processEvent e a s) = pollingRetries s"
  "scheduled (bridge_processEvent e a s) = scheduled s"
  by (simp_all add: bridge_processEvent_def split_beta processEvent_try_fields)

lemma process_batch_fields [simp]:
  "isRunning (process_batch e as s) = isRunning s"
  "pollingRetries (process_batch e as s) = pollingRetries s"
  "scheduled (process_batch e as s) = scheduled s"
  by (induction as arbitrary: s) simp_all





lemma poll_success:
  assumes "isRunning s" "alive t" "polled t = Inr evs"
  shows "pollingRetries (pollEvents e t s) = 0
     \<and> scheduled (pollEvents e t s) = Some (interval (polling e))
     \<and> isRunning (pollEvents e t s)"
  using assms by (simp add: pollEvents_def Let_def)

lemma poll_error_retry:
  assumes "isRunning s" "\<not> fatal m" "pollingRetries s + 1 < maxRetries (polling e)"
  shows "pollEvents e (err_tick m) s =
     s\<lparr>pollingRetries := pollingRetries s + 1, scheduled := Some (retryDelay (polling e))\<rparr>"
  using assms by (simp add: pollEvents_def Let_def err_tick_def)

lemma poll_error_stop:
  assumes "isRunning s" "\<not> fatal m" "pollingRetries s + 1 \<ge> maxRetries (polling e)"
  shows "pollEvents e (err_tick m) s =
     s\<lparr>pollingRetries := pollingRetries s + 1, scheduled := None, isRunning := False\<rparr>"
  using assms by (simp add: pollEvents_def Let_def err_tick_def handleBrowserClose_def)

lemma run_ticks_stopped: "scheduled s = None \<Longrightarrow> run_ticks e ts s = s"
  by (cases ts) simp_all

lemma run_ticks_append: "run_ticks e (xs @ ys) s = run_ticks e ys (run_ticks e xs s)"
  by (induction xs arbitrary: s) (simp_all add: run_ticks_stopped)

lemma run_errors_backoff:
  assumes "isRunning s" "scheduled s \<noteq> None" "list_all (\<lambda>m. \<not> fatal m) ms"
    "pollingRetries s + int (length ms) < maxRetries (polling e)"
  shows "run_ticks e (map err_tick ms) s =
     (if ms = [] then s
      else s\<lparr>pollingRetries := pollingRetries s + int (length ms),
             scheduled := Some (retryDelay (polling e))\<rparr>)"
  using assms
proof (induction ms arbitrary: s)
  case Nil
  then show ?case by simp
next
  case (Cons m ms)
  let ?s1 = "s\<lparr>pollingRetries := pollingRetries s + 1, scheduled := Some (retryDelay (polling e))\<rparr>"
  have step: "pollEvents e (err_tick m) s = ?s1"
    using Cons.prems by (intro poll_error_retry) auto
  have ih: "run_ticks e (map err_tick ms) ?s1 =
     (if ms = [] then ?s1
      else ?s1\<lparr>pollingRetries := pollingRetries ?s1 + int (length ms),
                scheduled := Some (retryDelay (polling e))\<rparr>)"
    using Cons.prems by (intro Cons.IH) auto
  show ?case using Cons.prems(2) by (simp add: step ih)
qed

lemma run_errors_stop:
  assumes "isRunning s" "scheduled s \<noteq> None" "list_all (\<lambda>m. \<not> fatal m) ms" "ms \<noteq> []"
    "pollingRetries s + int (length ms) = maxRetries (polling e)"
  shows "run_ticks e (map err_tick ms) s =
     s\<lparr>pollingRetries := maxRetries (polling e), scheduled := None, isRunning := False\<rparr>"
proof -
  obtain ms' m where ms: "ms = ms' @ [m]"
    using assms(4) by (metis rev_exhaust)
  let ?s1 = "run_ticks e (map err_tick ms') s"
  have tr: "list_all (\<lambda>m. \<not> fatal m) ms'" "\<not> fatal m" using assms(3) ms by simp_all
  have lt: "pollingRetries s + int (length ms') < maxRetries (polling e)"
    using assms(5) ms by simp
  have s1: "?s1 = (if ms' = [] then s
      else s\<lparr>pollingRetries := pollingRetries s + int (length ms'),
             scheduled := Some (retryDelay (polling e))\<rparr>)"
    by (rule run_errors_backoff[OF assms(1,2) tr(1) lt])
  have run1: "isRunning ?s1" and sch1: "scheduled ?s1 \<noteq> None"
    and ret1: "pollingRetries ?s1 = pollingRetries s + int (length ms')"
    using assms(1,2) by (simp_all add: s1)
  have ge: "pollingRetries ?s1 + 1 \<ge> maxRetries (polling e)"
    using assms(5) ms ret1 by simp
  have "run_ticks e (map err_tick ms) s = pollEvents e (err_tick m) ?s1"
    using sch1 by (auto simp add: ms run_ticks_append)
  also have "\<dots> = ?s1\<lparr>pollingRetries := pollingRetries ?s1 + 1, scheduled := None,
                         isRunning := False\<rparr>"
    by (rule poll_error_stop[OF run1 tr(2) ge])
  also have "\<dots> = s\<lparr>pollingRetries := maxRetries (polling e), scheduled := None,
                      isRunning := False\<rparr>"
  proof -
    have "pollingRetries s + int (length ms') + 1 = maxRetries (polling e)"
      using assms(5) ms by simp
    then show ?thesis by (auto simp add: s1)
  qed
  finally show ?thesis .
qed

lemma pollEvents_timer_fired: "pollEvents e t (s\<lparr>scheduled := x\<rparr>) = pollEvents e t s"
  by (simp add: pollEvents_def)

lemma startEventPolling_run:
  "ts \<noteq> [] \<Longrightarrow>
   startEventPolling e ts s = run_ticks e ts (s\<lparr>pollingRetries := 0, scheduled := Some 0\<rparr>)"
proof (cases ts)
  case Nil
  then show "ts \<noteq> [] \<Longrightarrow> ?thesis" by simp
next
  case (Cons t ts')
  have "pollEvents e t (s\<lparr>pollingRetries := 0, scheduled := Some 0\<rparr>)
          = pollEvents e t (s\<lparr>pollingRetries := 0\<rparr>)"
    using pollEvents_timer_fired[where s = "s\<lparr>pollingRetries := 0\<rparr>" and x = "Some 0"] by simp
  then show ?thesis by (simp add: startEventPolling_def Cons)
qed

lemma start_errors_stop:
  assumes "isRunning s" "list_all (\<lambda>m. \<not> fatal m) ms" "ms \<noteq> []"
    "int (length ms) = maxRetries (polling e)"
  shows "startEventPolling e (map err_tick ms) s =
     s\<lparr>pollingRetries := maxRetries (polling e), scheduled := None, isRunning := False\<rparr>"
proof -
  let ?s0 = "s\<lparr>pollingRetries := 0, scheduled := Some 0\<rparr>"
  have "startEventPolling e (map err_tick ms) s = run_ticks e (map err_tick ms) ?s0"
    using assms(3) by (simp add: startEventPolling_run)
  also have "\<dots> = ?s0\<lparr>pollingRetries := maxRetries (polling e), scheduled := None, isRunning := False\<rparr>"
    using assms by (intro run_errors_stop) simp_all
  finally show ?thesis by simp
qed

text \<open>
  Claim C7: in a running scheduler a poll that returns its batch, once the batch is
  processed, sets the counter of consecutive failures to zero and schedules the next
  poll after the interval. From a counter of zero, a run of consecutive transient poll
  errors shorter than \<open>maxRetries\<close> leaves the scheduler running with a retry scheduled
  after the retry delay; a run of exactly \<open>maxRetries\<close> such errors stops it: it is no
  longer running, no timer is pending, and whatever the browser would answer
  afterwards, \<open>pollEvents\<close> does not run again. The same holds when the errors are the
  first polls after \<open>startEventPolling\<close>.
\<close>

theorem C7_reset_and_stop:
  assumes "isRunning s" and "scheduled s \<noteq> None"
  shows "(alive t \<and> polled t = Inr evs \<longrightarrow>
            pollingRetries (pollEvents e t s) = 0
            \<and> scheduled (pollEvents e t s) = Some (interval (polling e)))
       \<and> (pollingRetries s = 0 \<and> ms \<noteq> [] \<and> list_all (\<lambda>m. \<not> fatal m) ms
            \<and> int (length ms) < maxRetries (polling e) \<longrightarrow>
            isRunning (run_ticks e (map err_tick ms) s)
            \<and> scheduled (run_ticks e (map err_tick ms) s) = Some (retryDelay (polling e)))
       \<and> (pollingRetries s = 0 \<and> ms \<noteq> [] \<and> list_all (\<lambda>m. \<not> fatal m) ms
            \<and> int (length ms) = maxRetries (polling e) \<longrightarrow>
            \<not> isRunning (run_ticks e (map err_tick ms) s)
            \<and> scheduled (run_ticks e (map err_tick ms) s) = None
            \<and> run_ticks e later (run_ticks e (map err_tick ms) s)
                = run_ticks e (map err_tick ms) s
            \<and> \<not> isRunning (startEventPolling e (map err_tick ms) s)
            \<and> scheduled (startEventPolling e (map err_tick ms) s) = None)"
proof (intro conjI impI)
  assume "alive t \<and> polled t = Inr evs"
  then show "pollingRetries (pollEvents e t s) = 0"
    and "scheduled (pollEvents e t s) = Some (interval (polling e))"
    using poll_success[OF assms(1), of t evs e] by simp_all
next
  assume h: "pollingRetries s = 0 \<and> ms \<noteq> [] \<and> list_all (\<lambda>m. \<not> fatal m) ms
              \<and> int (length ms) < maxRetries (polling e)"
  then have "run_ticks e (map err_tick ms) s =
      s\<lparr>pollingRetries := pollingRetries s + int (length ms),
        scheduled := Some (retryDelay (polling e))\<rparr>"
    using run_errors_backoff[OF assms, of ms e] by simp
  then show "isRunning (run_ticks e (map err_tick ms) s)"
    and "scheduled (run_ticks e (map err_tick ms) s) = Some (retryDelay (polling e))"
    using assms(1) by simp_all
next
  assume h: "pollingRetries s = 0 \<and> ms \<noteq> [] \<and> list_all (\<lambda>m. \<not> fatal m) ms
              \<and> int (length ms) = maxRetries (polling e)"
  then have stop: "run_ticks e (map err_tick ms) s =
      s\<lparr>pollingRetries := maxRetries (polling e), scheduled := None, isRunning := False\<rparr>"
    using run_errors_stop[OF assms, of ms e] by simp
  show "\<not> isRunning (run_ticks e (map err_tick ms) s)"
    and "scheduled (run_ticks e (map err_tick ms) s) = None"
    by (simp_all add: stop)
  then show "run_ticks e later (run_ticks e (map err_tick ms) s)
               = run_ticks e (map err_tick ms) s"
    by (simp add: run_ticks_stopped)
  have start: "startEventPolling e (map err_tick ms) s =
      s\<lparr>pollingRetries := maxRetries (polling e), scheduled := None, isRunning := False\<rparr>"
    using start_errors_stop[OF assms(1), of ms e] h by simp
  show "\<not> isRunning (startEventPolling e (map err_tick ms) s)"
    and "scheduled (startEventPolling e (map err_tick ms) s) = None"
    by (simp_all add: start)
qed

text \<open>
  Scenario D: three transient errors with \<open>maxRetries = 3\<close>. After the first and the
  second a retry is pending, after the third the scheduler has stopped.
\<close>

theorem C7_reset_and_stop_witness:
  "isRunning started \<and> scheduled started \<noteq> None
   \<and> pollingRetries (pollEvents sample_env \<lparr>alive = True, polled = Inr [chat_arrival]\<rparr> started) = 0
   \<and> scheduled (run_ticks sample_env (map err_tick [''Timeout'', ''Timeout'']) started)
       = Some 5000
   \<and> \<not> isRunning (run_ticks sample_env (map err_tick [''Timeout'', ''Timeout'', ''Timeout''])
                      started)
   \<and> scheduled (run_ticks sample_env (map err_tick [''Timeout'', ''Timeout'', ''Timeout''])
                  started) = None
   \<and> \<not> isRunning (startEventPolling sample_env
                      (map err_tick [''Timeout'', ''Timeout'', ''Timeout'']) started)"
proof -
  have r: "isRunning started" and sc: "scheduled started \<noteq> None"
    and z: "pollingRetries started = 0"
    by (simp_all add: started_def)
  have nf: "\<not> fatal ''Timeout''" by (simp add: fatal_def)
  have p: "polling sample_env = \<lparr>maxRetries = 3, retryDelay = 5000, interval = 1000\<rparr>"
    by (simp add: sample_env_def)
  note a = C7_reset_and_stop[OF r sc,
      of "\<lparr>alive = True, polled = Inr [chat_arrival]\<rparr>" "[chat_arrival]" sample_env
         "[''Timeout'', ''Timeout'']" "[]"]
  note b = C7_reset_and_stop[OF r sc,
      of "\<lparr>alive = True, polled = Inr [chat_arrival]\<rparr>" "[chat_arrival]" sample_env
         "[''Timeout'', ''Timeout'', ''Timeout'']" "[]"]
  from a have a1: "pollingRetries
      (pollEvents sample_env \<lparr>alive = True, polled = Inr [chat_arrival]\<rparr> started) = 0"
    by simp
  from a have a2: "scheduled (run_ticks sample_env (map err_tick [''Timeout'', ''Timeout''])
      started) = Some 5000"
    using z nf by (simp add: p)
  from b have b1: "\<not> isRunning
        (run_ticks sample_env (map err_tick [''Timeout'', ''Timeout'', ''Timeout'']) started)
      \<and> scheduled
        (run_ticks sample_env (map err_tick [''Timeout'', ''Timeout'', ''Timeout'']) started) = None
      \<and> \<not> isRunning (startEventPolling sample_env
                      (map err_tick [''Timeout'', ''Timeout'', ''Timeout'']) started)"
    using z nf by (simp add: p)
  from r sc a1 a2 b1 show ?thesis by simp
qed



section \<open>The mappers do not throw on well-typed events\<close>

lemma returns_Inr [simp]: "returns (Inr v)"
  by (simp add: returns_def)

lemma returns_Inl [simp]: "\<not> returns (Inl e)"
  by (simp add: returns_def)

lemma returns_bindE: "returns r \<Longrightarrow> (\<And>v. r = Inr v \<Longrightarrow> returns (f v)) \<Longrightarrow> returns (bindE r f)"
  by (cases r) simp_all

lemma returns_orE: "returns a \<Longrightarrow> returns b \<Longrightarrow> returns (orE a b)"
  by (cases a) (simp_all add: orE_def)

lemma returns_objE: "list_all (\<lambda>(k, r). returns r) fs \<Longrightarrow> returns (objE fs)"
  by (induction fs) (auto intro!: returns_bindE)

lemma returns_mapE: "list_all (\<lambda>x. returns (f x)) xs \<Longrightarrow> returns (mapE f xs)"
  by (induction xs) (auto intro!: returns_bindE)

lemma returns_obtain: "returns r \<Longrightarrow> \<exists>v. r = Inr v"
  by (cases r) simp_all

lemma returns_normalizeId: "str_or_falsy v \<Longrightarrow> returns (normalizeId v)"
  by (cases v) (simp_all add: normalizeId_def str_or_falsy_def)

lemma returns_opt_includes: "searchable v \<Longrightarrow> returns (opt_includes v n)"
  by (cases v) (simp_all add: opt_includes_def searchable_def)

lemma returns_opt_toString: "stringable v \<Longrightarrow> returns (opt_toString v)"
  by (auto simp: opt_toString_def stringable_def intro!: returns_bindE)

lemma returns_lookup_key: "stringable v \<Longrightarrow> returns (lookup_key kvs v)"
  by (auto simp: lookup_key_def stringable_def intro!: returns_bindE split: option.splits)

lemma date_ok_stringable: "date_ok v \<Longrightarrow> stringable v"
  by (cases v) (simp_all add: date_ok_def stringable_def)

lemma returns_date_iso: "date_ok v \<Longrightarrow> truthy v \<Longrightarrow> returns (date_iso h v)"
  by (cases v) (simp_all add: date_ok_def date_iso_def)

lemma returns_getEventTypeByAck: "stringable ack \<Longrightarrow> returns (getEventTypeByAck cfg ack b)"
  by (simp add: getEventTypeByAck_def Let_def returns_orE returns_lookup_key)

lemma returns_getMediaFormat:
  "\<not> nullish d \<Longrightarrow> str_or_falsy (jsget (jsget d ''__raw'') ''mimetype'') \<Longrightarrow> returns (getMediaFormat d)"
  by (cases "jsget (jsget d ''__raw'') ''mimetype''")
     (simp_all add: getMediaFormat_def chain_simps str_or_falsy_def)

lemma returns_isGroupMessage:
  "\<not> nullish d \<Longrightarrow> well_typed d \<Longrightarrow> returns (isGroupMessage d)"
  by (simp add: isGroupMessage_def chain_simps well_typed_def returns_orE returns_opt_includes)

lemma returns_buildBase:
  "\<not> nullish ev \<Longrightarrow> \<not> nullish d \<Longrightarrow> date_ok (jsget d ''timestamp'') \<Longrightarrow>
   returns (buildBaseTransformedEvent h ev d td)"
  by (simp add: buildBaseTransformedEvent_def chain_simps returns_bindE returns_objE returns_date_iso)

lemma returns_isStatusEvent: "\<not> nullish ev \<Longrightarrow> returns (isStatusEvent ev)"
  by (simp add: isStatusEvent_def chain_simps)

lemma returns_shouldIgnoreEvent: "\<not> nullish ev \<Longrightarrow> returns (shouldIgnoreEvent cfg ev)"
  by (simp add: shouldIgnoreEvent_def chain_simps orE_def)

lemma isStatusEvent_inner:
  "isStatusEvent ev = Inr True \<Longrightarrow> \<not> nullish (jsget ev ''data'') \<and> \<not> nullish (inner ev)"
  by (cases "nullish ev"; cases "nullish (jsget ev ''data'')"; cases "nullish (inner ev)")
     (auto simp: isStatusEvent_def chain_simps chain.simps inner_def is_str_def split: if_splits)

lemma returns_transformStatusEvent:
  assumes "\<not> nullish ev" "well_typed (inner ev)"
  shows "returns (transformStatusEvent cfg h ev)"
proof -
  have wt: "well_typed (jsget (jsget ev ''data'') ''data'')" using assms(2) by (simp add: inner_def)
  obtain b where b: "isStatusEvent ev = Inr b"
    using returns_obtain[OF returns_isStatusEvent[OF assms(1)]] by blast
  show ?thesis
  proof (cases b)
    case False
    then show ?thesis using b by (simp add: transformStatusEvent_def)
  next
    case True
    then have nn: "\<not> nullish (jsget ev ''data'')" "\<not> nullish (jsget (jsget ev ''data'') ''data'')"
      using isStatusEvent_inner[of ev] b by (simp_all add: inner_def)
    show ?thesis
      using b True assms(1) nn wt
      by (auto simp: transformStatusEvent_def chain_simps well_typed_def Let_def
          intro!: returns_bindE returns_getEventTypeByAck returns_objE returns_orE
            returns_getMediaFormat returns_opt_toString returns_buildBase date_ok_stringable)
  qed
qed

lemma returns_handleNotificationTemplate:
  "\<not> nullish d \<Longrightarrow> well_typed d \<Longrightarrow> returns (handleNotificationTemplate cfg d td)"
  by (auto simp: handleNotificationTemplate_def chain_simps well_typed_def
      intro!: returns_bindE returns_orE returns_normalizeId)

lemma str_or_falsy_orE:
  "str_or_falsy a \<Longrightarrow> str_or_falsy b \<Longrightarrow> orE (Inr a) (Inr b) = Inr v \<Longrightarrow> str_or_falsy v"
  by (auto simp: orE_def split: if_splits)

lemma returns_actor:
  assumes "\<not> nullish d" "well_typed d"
  shows "returns (bindE (orE (chain d [Dot ''id'', Opt ''participant'', Opt ''user''])
                       (chain d [Dot ''__raw'', Opt ''author''])) normalizeId)"
  using assms
  by (auto simp: chain_simps well_typed_def intro!: returns_bindE returns_orE returns_normalizeId
      elim: str_or_falsy_orE[rotated 2])

lemma returns_handleRevokedMessage:
  "\<not> nullish d \<Longrightarrow> well_typed d \<Longrightarrow> returns (handleRevokedMessage cfg d td)"
  unfolding handleRevokedMessage_def
  by (intro returns_bindE returns_orE returns_actor)
     (auto simp: chain_simps well_typed_def intro!: returns_bindE returns_opt_toString)

lemma returns_recipients:
  "recipients_ok r \<Longrightarrow> orE (Inr r) (Inr (JArr [])) = Inr v \<Longrightarrow>
   returns (case v of JArr ids \<Rightarrow> bindE (mapE normalizeId ids) (\<lambda>ns. Inr (JArr (filter truthy ns)))
                    | _ \<Rightarrow> Inl TypeError)"
  by (cases r)
     (auto simp: recipients_ok_def orE_def list_all_iff
       intro!: returns_bindE returns_mapE returns_normalizeId split: if_splits)

lemma returns_handleGroupEvent:
  assumes "\<not> nullish d" "well_typed d"
  shows "returns (handleGroupEvent cfg d td)"
proof -
  have sub: "chain d [Dot ''__raw'', Opt ''subtype''] = Inr (jsget (jsget d ''__raw'') ''subtype'')"
    and rec: "chain d [Dot ''__raw'', Opt ''recipients''] = Inr (jsget (jsget d ''__raw'') ''recipients'')"
    using assms(1) by (simp_all add: chain_simps)
  have st: "stringable (jsget (jsget d ''__raw'') ''subtype'')"
    and ro: "recipients_ok (jsget (jsget d ''__raw'') ''recipients'')"
    using assms(2) by (simp_all add: well_typed_def)
  show ?thesis
    unfolding handleGroupEvent_def sub rec
    apply (simp only: bindE_Inr)
    apply (rule returns_bindE)
     apply (simp add: orE_def)
    apply (rule returns_bindE)
     apply (rule returns_orE)
      apply (rule returns_lookup_key[OF st])
     apply simp
    apply (rule returns_bindE)
     apply (erule returns_recipients[OF ro])
    apply (rule returns_bindE)
     apply (rule returns_actor[OF assms])
    apply simp
    done
qed

lemma returns_handleSpecialMessageTypes:
  "\<not> nullish d \<Longrightarrow> well_typed d \<Longrightarrow> returns (handleSpecialMessageTypes cfg d td)"
  by (simp add: handleSpecialMessageTypes_def chain_simps returns_handleNotificationTemplate
      returns_handleRevokedMessage returns_handleGroupEvent)

lemma returns_transformChatMessage:
  assumes "\<not> nullish ev" "well_typed (inner ev)"
  shows "returns (transformChatMessage cfg h ev)"
proof (cases "truthy (inner ev)")
  case False
  then show ?thesis using assms(1) by (simp add: transformChatMessage_def chain_simps inner_def)
next
  case True
  define d where "d = jsget (jsget ev ''data'') ''data''"
  have nn: "\<not> nullish d" and wt: "well_typed d"
    using True assms(2) by (simp_all add: d_def inner_def truthy_not_nullish)
  have od: "chain ev [Dot ''data'', Opt ''data''] = Inr d"
    using assms(1) by (simp add: chain_simps d_def)
  have fields: "str_or_falsy (jsget (jsget d ''__raw'') ''author'')" "stringable (jsget d ''timestamp'')"
    "stringable (jsget d ''ack'')" "date_ok (jsget d ''timestamp'')"
    using wt by (simp_all add: well_typed_def date_ok_stringable)
  show ?thesis
    unfolding transformChatMessage_def od
    apply (simp only: bindE_Inr)
    apply (rule if_split[THEN iffD2], intro conjI impI)
     apply simp
    apply (intro returns_bindE returns_getEventTypeByAck returns_isGroupMessage returns_objE
        returns_handleSpecialMessageTypes nn wt)
    using nn fields assms(1)
        apply (simp_all add: chain_simps Let_def returns_orE returns_bindE returns_normalizeId
        returns_opt_toString returns_buildBase)
    done
qed

lemma returns_transform:
  assumes "\<not> nullish ev" "well_typed (inner ev)"
  shows "returns (transform cfg h ev)"
proof -
  obtain i where i: "shouldIgnoreEvent cfg ev = Inr i"
    using returns_obtain[OF returns_shouldIgnoreEvent[OF assms(1)]] by blast
  obtain st where st: "transformStatusEvent cfg h ev = Inr st"
    using returns_obtain[OF returns_transformStatusEvent[OF assms]] by blast
  obtain ch where ch: "transformChatMessage cfg h ev = Inr ch"
    using returns_obtain[OF returns_transformChatMessage[OF assms]] by blast
  show ?thesis by (simp add: transform_def i st ch)
qed

section \<open>The shape of the results\<close>

lemma bindE_InrE: "bindE r f = Inr y \<Longrightarrow> (\<And>v. r = Inr v \<Longrightarrow> f v = Inr y \<Longrightarrow> P) \<Longrightarrow> P"
  by (cases r) simp_all

lemma buildBase_normalized:
  "buildBaseTransformedEvent h ev d td = Inr r \<Longrightarrow> is_normalized r"
  by (auto simp: buildBaseTransformedEvent_def is_normalized_def elim!: bindE_InrE)


lemma transformStatusEvent_shape:
  "transformStatusEvent cfg h ev = Inr r \<Longrightarrow> r = JNull \<or> is_normalized r"
  unfolding transformStatusEvent_def
  by (auto simp del: objE.simps simp: Let_def buildBase_normalized elim!: bindE_InrE split: if_splits)

lemma transformChatMessage_shape:
  "transformChatMessage cfg h ev = Inr r \<Longrightarrow> r = JNull \<or> is_normalized r"
  unfolding transformChatMessage_def
  by (auto simp del: objE.simps simp: Let_def buildBase_normalized elim!: bindE_InrE split: if_splits)

lemma transform_shape:
  assumes "transform cfg h ev = Inr r"
  shows "r = JNull \<or> r = ev \<or> is_normalized r"
proof -
  from assms obtain i where i: "shouldIgnoreEvent cfg ev = Inr i"
    and rest: "(if i then Inr JNull
       else bindE (transformStatusEvent cfg h ev) (\<lambda>st. if truthy st then Inr st
         else bindE (transformChatMessage cfg h ev) (\<lambda>ch. if truthy ch then Inr ch else Inr ev))) = Inr r"
    unfolding transform_def by (elim bindE_InrE) blast
  show ?thesis
  proof (cases i)
    case True
    then show ?thesis using rest by simp
  next
    case False
    with rest have "bindE (transformStatusEvent cfg h ev) (\<lambda>st. if truthy st then Inr st
         else bindE (transformChatMessage cfg h ev) (\<lambda>ch. if truthy ch then Inr ch else Inr ev)) = Inr r"
      by simp
    then obtain st where st: "transformStatusEvent cfg h ev = Inr st"
      and rest2: "(if truthy st then Inr st
         else bindE (transformChatMessage cfg h ev) (\<lambda>ch. if truthy ch then Inr ch else Inr ev)) = Inr r"
      by (elim bindE_InrE) blast
    show ?thesis
    proof (cases "truthy st")
      case True
      then show ?thesis using rest2 transformStatusEvent_shape[OF st] by auto
    next
      case False
      with rest2 have "bindE (transformChatMessage cfg h ev)
          (\<lambda>ch. if truthy ch then Inr ch else Inr ev) = Inr r"
        by simp
      then obtain ch where ch: "transformChatMessage cfg h ev = Inr ch"
        and rest3: "(if truthy ch then Inr ch else Inr ev) = (Inr r :: error + jsval)"
        by (elim bindE_InrE) blast
      show ?thesis using rest3 transformChatMessage_shape[OF ch] by (auto split: if_splits)
    qed
  qed
qed

text \<open>
  Claim C9, as the specification states it: \<open>transform\<close> and \<open>isIgnored\<close> never raise,
  however malformed the event. The mappers guard against missing and null fields only:
  a chat message whose \<open>from.user\<close> is a number makes \<open>_isGroupMessage\<close> call
  \<open>includes\<close> on it, and \<open>transform\<close> throws a TypeError.
\<close>

theorem C9_wrong_type_throws: "transform default_config sample_host bad_event = Inl TypeError"
  by (simp add: bad_event_def eval_defs object_prototype_names_def)

text \<open>
  Claim C9, amended: for every event object whose inner fields are each missing, null or
  of the type the mappers expect (\<open>well_typed\<close>), \<open>isIgnored\<close> and \<open>transform\<close> do not
  raise, and \<open>transform\<close> gives null, the envelope itself, or a normalized event. The
  ignore check alone never raises on an event object.
\<close>

theorem C9_well_typed_no_throw:
  assumes "\<not> nullish ev" and "well_typed (inner ev)"
  shows "returns (isIgnored cfg ev) \<and> returns (transform cfg h ev)
         \<and> (case transform cfg h ev of
               Inr r \<Rightarrow> r = JNull \<or> r = ev \<or> is_normalized r
             | Inl err \<Rightarrow> False)"
proof -
  obtain r where r: "transform cfg h ev = Inr r"
    using returns_obtain[OF returns_transform[OF assms]] by blast
  show ?thesis
    using returns_shouldIgnoreEvent[OF assms(1), of cfg] transform_shape[OF r]
    by (simp add: r isIgnored_def)
qed

theorem C9_well_typed_no_throw_witness:
  "\<not> nullish delivered_event \<and> well_typed (inner delivered_event)
   \<and> returns (isIgnored default_config delivered_event)
   \<and> returns (transform default_config sample_host delivered_event)"
proof -
  have nn: "\<not> nullish delivered_event" by (simp add: delivered_event_def)
  have wt: "well_typed (inner delivered_event)"
    by (simp add: inner_def delivered_event_def well_typed_def stringable_def date_ok_def
        searchable_def str_or_falsy_def recipients_ok_def returns_def)
  from C9_well_typed_no_throw[OF nn wt, of default_config sample_host] nn wt
  show ?thesis by simp
qed

section \<open>Ack levels and lifecycle states\<close>















lemma map_of_replace_other:
  "k' \<noteq> k \<Longrightarrow> map_of (map (\<lambda>(a, b). if a = k then (a, v) else (a, b)) kvs) k' = map_of kvs k'"
  by (induction kvs) auto

lemma map_of_replace_same:
  "k \<in> set (map fst kvs) \<Longrightarrow> map_of (map (\<lambda>(a, b). if a = k then (a, v) else (a, b)) kvs) k = Some v"
  by (induction kvs) auto

lemma map_of_obj_set: "map_of (obj_set kvs k v) k' = (if k' = k then Some v else map_of kvs k')"
proof (cases "k \<in> set (map fst kvs)")
  case True
  then show ?thesis
    using map_of_replace_same[OF True, of v] map_of_replace_other[of k' k v kvs]
    by (simp add: obj_set_def)
next
  case False
  then have "map_of kvs k = None" by (simp add: map_of_eq_None_iff)
  then show ?thesis using False by (auto simp add: obj_set_def map_add_def split: option.splits)
qed

lemma jsget_obj_set: "jsget (JObj (obj_set kvs k v)) k' = (if k' = k then v else jsget (JObj kvs) k')"
  by (simp add: map_of_obj_set)















section \<open>Ignored events\<close>







section \<open>The total of the event statistics\<close>

lemma counted_twice_iff: "counted_twice out = (\<not> counted_once out)"
  by (cases out) (simp_all add: counted_twice_def counted_once_def)

lemma bridge_processEvent_counters:
  "total (bridge_processEvent e a s) = total s + (if counted_once (outcome_of e a s) then 1 else 2)"
  "errors (bridge_processEvent e a s) = errors s + (if outcome_of e a s = WasErrored then 1 else 0)"
  "filtered (bridge_processEvent e a s) = filtered s + (if outcome_of e a s = WasFiltered then 1 else 0)"
  "ignored (bridge_processEvent e a s) = ignored s + (if outcome_of e a s = WasIgnored then 1 else 0)"
  by (simp_all add: bridge_processEvent_def processEvent_try_def outcome_of_def action_of_def
      counted_once_def Let_def split_beta split: action.splits sum.splits)

lemma process_batch_counters:
  "total (process_batch e as s) = total s + length (filter counted_once (batch_outcomes e as s))
      + 2 * length (filter counted_twice (batch_outcomes e as s))"
  "errors (process_batch e as s) = errors s + length (filter (\<lambda>out. out = WasErrored) (batch_outcomes e as s))"
  "filtered (process_batch e as s) = filtered s + length (filter (\<lambda>out. out = WasFiltered) (batch_outcomes e as s))"
  "ignored (process_batch e as s) = ignored s + length (filter (\<lambda>out. out = WasIgnored) (batch_outcomes e as s))"
  "length (batch_outcomes e as s) = length as"
  by (induction as arbitrary: s) (simp_all add: bridge_processEvent_counters counted_twice_iff)

text \<open>
  Claim C10: \<open>updateEventStats\<close> adds one to the total at every call, and the bridge calls
  it once when an event arrives and once more when the event ends ignored, filtered or
  in error. So an event adds one to the total when it is published or skipped and two
  otherwise; after a batch the total has grown by the number of published or skipped
  events plus twice the number of ignored, filtered and errored ones, each of these three
  numbers being the growth of its own counter.
\<close>

theorem C10_total_counts_twice:
  "total (bridge_processEvent e a s) = total s + (if counted_once (outcome_of e a s) then 1 else 2)
   \<and> counted_twice (outcome_of e a s) = (\<not> counted_once (outcome_of e a s))
   \<and> length (batch_outcomes e as s) = length as
   \<and> total (process_batch e as s)
       = total s + length (filter counted_once (batch_outcomes e as s))
         + 2 * length (filter counted_twice (batch_outcomes e as s))
   \<and> ignored (process_batch e as s)
       = ignored s + length (filter (\<lambda>out. out = WasIgnored) (batch_outcomes e as s))
   \<and> filtered (process_batch e as s)
       = filtered s + length (filter (\<lambda>out. out = WasFiltered) (batch_outcomes e as s))
   \<and> errors (process_batch e as s)
       = errors s + length (filter (\<lambda>out. out = WasErrored) (batch_outcomes e as s))"
proof -
  have once: "total (bridge_processEvent e a s)
                = total s + (if counted_once (outcome_of e a s) then 1 else 2)"
    by (rule bridge_processEvent_counters(1))
  have twice: "counted_twice (outcome_of e a s) = (\<not> counted_once (outcome_of e a s))"
    by (rule counted_twice_iff)
  have batch: "total (process_batch e as s)
       = total s + length (filter counted_once (batch_outcomes e as s))
         + 2 * length (filter counted_twice (batch_outcomes e as s))"
    by (rule process_batch_counters(1))
  from once twice batch show ?thesis
    by (simp add: process_batch_counters(2-5))
qed

lemma act1: "action_of sample_env chat_arrival = Publish
  (JObj
    [(''internal_event_id'', JNum 7), (''timestamp'', JStr ''t''),
     (''data'',
      JObj
       [(''message_id'', JStr ''A1''), (''type'', JStr ''message_delivered''),
        (''format'', JStr ''chat''), (''from_number'', JNull), (''to_number'', JNull),
        (''isGroup'', JUndef), (''group_id'', JNull), (''fromMe'', JBool False),
        (''message_time'', JNull), (''body'', JStr ''hi'')])])
  (JObj
    [(''id'', JNum 7), (''timestamp'', JStr ''t''),
     (''data'',
      JObj
       [(''type'', JStr ''message_delivered''),
        (''data'',
         JObj
          [(''id'', JObj [(''id'', JStr ''A1'')]), (''type'', JStr ''chat''), (''ack'', JNum 2),
           (''body'', JStr ''hi'')]),
        (''timestamp'', JNum 0)])])
  (JStr ''message_delivered'') True"
  by (simp add: chat_arrival_def num_to_string_2 eval_defs)

lemma out1: "outcome_of sample_env chat_arrival s = WasPublished"
  using act1 by (simp add: outcome_of_def processEvent_try_def publish_def Let_def action_of_def sample_env_def)

lemma out2: "outcome_of sample_env cipher_arrival s = WasIgnored"
  by (simp add: outcome_of_def processEvent_try_def publish_def Let_def cipher_arrival_def eval_defs)

text \<open>A published and an ignored event: two events, a total of three.\<close>

theorem C10_total_counts_twice_witness:
  "batch_outcomes sample_env [chat_arrival, cipher_arrival] started = [WasPublished, WasIgnored]
  \<and> total (process_batch sample_env [chat_arrival, cipher_arrival] started) = 3"
proof -
  have o: "batch_outcomes sample_env [chat_arrival, cipher_arrival] started = [WasPublished, WasIgnored]"
    by (simp add: out1 out2)
  have t: "total started = 0" by (simp add: started_def)
  from C10_total_counts_twice[of sample_env chat_arrival started "[chat_arrival, cipher_arrival]"] o t
  show ?thesis by (simp add: counted_once_def counted_twice_def)
qed

end
